theory Spec2Isabelle
  imports Complex_Main "HOL-Library.Log_Nat"
begin

section \<open>Data model (src/types.ts)\<close>

text \<open>
  Instants are epoch milliseconds, as \<open>Date.now()\<close> and \<open>Date.getTime()\<close> return them:
  integers. A field declared optional (\<open>projectId?\<close>) or nullable (\<open>endTime: number | null\<close>)
  is an \<open>option\<close>; \<open>None\<close> is \<open>undefined\<close>, respectively \<open>null\<close>. The field names of the
  three interfaces carry a suffix, since \<open>id\<close>, \<open>name\<close> and \<open>color\<close> occur in several of them.
\<close>

datatype EntryType = Work | Break

record Project =
  id_P :: string
  name_P :: string
  color_P :: string
  isArchived :: "bool option"

record Tag =
  id_T :: string
  name_T :: string
  color_T :: string

record TimeEntry =
  id_E :: string
  startTime :: int
  endTime :: "int option"
  type_E :: EntryType
  projectId :: "string option"
  tagIds :: "string list"
  notes_E :: "string option"
  targetDuration :: "int option"
  isWorkingBreak :: "bool option"

section \<open>The entry store (src/store/useTimeStore.ts)\<close>

record TimeStore =
  entries :: "TimeEntry list"
  projects :: "Project list"
  tags :: "Tag list"

definition initialStore :: TimeStore where
  "initialStore = \<lparr>entries = [], projects = [], tags = []\<rparr>"

text \<open>\<open>Array.prototype.findIndex\<close>: the index of the first element satisfying the predicate;
  the result \<open>-1\<close> of the source is \<open>None\<close>.\<close>

fun findIndex :: "('a \<Rightarrow> bool) \<Rightarrow> 'a list \<Rightarrow> nat option" where
  "findIndex P [] = None"
| "findIndex P (x # xs) = (if P x then Some 0 else map_option Suc (findIndex P xs))"

definition isOpen :: "TimeEntry \<Rightarrow> bool" where
  "isOpen e \<longleftrightarrow> endTime e = None"

text \<open>
  \<open>startEntry\<close>. The two effects of the source are arguments of the model: \<open>now\<close> is the
  value \<open>Date.now()\<close> returned, \<open>uuid\<close> the value \<open>crypto.randomUUID()\<close> returned. The optional
  parameters are options; \<open>tagIds\<close> has the default \<open>[]\<close>, \<open>isWorkingBreak || false\<close> is
  true only for the argument \<open>true\<close>.
\<close>

definition startEntry ::
  "int \<Rightarrow> string \<Rightarrow> EntryType \<Rightarrow> string option \<Rightarrow> string list option \<Rightarrow> int option \<Rightarrow> bool option
     \<Rightarrow> TimeStore \<Rightarrow> TimeStore" where
  "startEntry now uuid ty pid tids targetDur workingBreak s =
     (let target = (case targetDur of
                      None \<Rightarrow> (if ty = Work then 25 * 60 else 5 * 60)
                    | Some t \<Rightarrow> t);
          activeEntryIndex = findIndex isOpen (entries s);
          newEntries = (case activeEntryIndex of
                          None \<Rightarrow> entries s
                        | Some i \<Rightarrow> (entries s)[i := (entries s ! i)\<lparr>endTime := Some now\<rparr>]);
          newEntry = \<lparr>id_E = uuid, startTime = now, endTime = None, type_E = ty,
                      projectId = pid,
                      tagIds = (case tids of None \<Rightarrow> [] | Some ts \<Rightarrow> ts),
                      notes_E = None,
                      targetDuration = Some target,
                      isWorkingBreak = Some (workingBreak = Some True)\<rparr>
      in s\<lparr>entries := newEntries @ [newEntry]\<rparr>)"

definition stopEntry :: "int \<Rightarrow> TimeStore \<Rightarrow> TimeStore" where
  "stopEntry now s =
     (case findIndex isOpen (entries s) of
        None \<Rightarrow> s
      | Some i \<Rightarrow> s\<lparr>entries := (entries s)[i := (entries s ! i)\<lparr>endTime := Some now\<rparr>]\<rparr>)"

definition deleteProject :: "string \<Rightarrow> TimeStore \<Rightarrow> TimeStore" where
  "deleteProject pid s = s\<lparr>projects := filter (\<lambda>p. id_P p \<noteq> pid) (projects s)\<rparr>"

text \<open>\<open>importData\<close>: each field of the argument may be missing (\<open>data.entries || []\<close>; an
  array, also the empty one, is truthy).\<close>

record ImportData =
  entries_D :: "TimeEntry list option"
  projects_D :: "Project list option"
  tags_D :: "Tag list option"

definition orEmpty :: "'a list option \<Rightarrow> 'a list" where
  "orEmpty x = (case x of None \<Rightarrow> [] | Some xs \<Rightarrow> xs)"

definition importData :: "ImportData \<Rightarrow> TimeStore \<Rightarrow> TimeStore" where
  "importData d s =
     s\<lparr>entries := orEmpty (entries_D d), projects := orEmpty (projects_D d), tags := orEmpty (tags_D d)\<rparr>"


text \<open>A sequence of \<open>startEntry\<close> calls on the initial store; each call carries its arguments
  and the two values it reads from its environment.\<close>

record StartCall =
  now_C :: int
  uuid_C :: string
  type_C :: EntryType
  projectId_C :: "string option"
  tagIds_C :: "string list option"
  targetDuration_C :: "int option"
  isWorkingBreak_C :: "bool option"

definition applyStart :: "TimeStore \<Rightarrow> StartCall \<Rightarrow> TimeStore" where
  "applyStart s c =
     startEntry (now_C c) (uuid_C c) (type_C c) (projectId_C c) (tagIds_C c) (targetDuration_C c)
       (isWorkingBreak_C c) s"

definition runStarts :: "StartCall list \<Rightarrow> TimeStore" where
  "runStarts cs = foldl applyStart initialStore cs"

section \<open>JavaScript and date-fns primitives used by the pages\<close>

text \<open>
  Truthiness. \<open>e.endTime || Date.now()\<close> takes the clock also for \<open>endTime = 0\<close>, and
  \<open>if (e.projectId)\<close> fails also for the empty string (see \<open>pieStep\<close>).
\<close>

definition falsyNum :: "int option \<Rightarrow> bool" where
  "falsyNum x \<longleftrightarrow> x = None \<or> x = Some 0"

definition orNow :: "int option \<Rightarrow> int \<Rightarrow> int" where
  "orNow x now = (case x of None \<Rightarrow> now | Some t \<Rightarrow> if t = 0 then now else t)"

definition truthyBool :: "bool option \<Rightarrow> bool" where
  "truthyBool x \<longleftrightarrow> x = Some True"

text \<open>
  The date-fns functions are library code; they are modelled for a host whose local time is
  UTC, where every calendar day has 86400000 milliseconds: \<open>startOfDay\<close> is the last midnight,
  \<open>endOfDay\<close> the last millisecond of the day (23:59:59.999), \<open>isToday\<close> compares the day of
  an instant with the day of the clock, \<open>differenceInSeconds\<close> truncates toward zero,
  \<open>isWithinInterval\<close> is inclusive on both sides, \<open>eachDayOfInterval\<close> lists the midnights of
  the days from the day of the start to the day of the end. The last two are meant for an
  interval whose start is not after its end; the page builds no other.
\<close>

definition msPerDay :: int where
  "msPerDay = 86400000"

definition startOfDay :: "int \<Rightarrow> int" where
  "startOfDay t = t - t mod msPerDay"

definition endOfDay :: "int \<Rightarrow> int" where
  "endOfDay t = startOfDay t + (msPerDay - 1)"

definition isToday :: "int \<Rightarrow> int \<Rightarrow> bool" where
  "isToday clock t \<longleftrightarrow> startOfDay t = startOfDay clock"

definition differenceInSeconds :: "int \<Rightarrow> int \<Rightarrow> int" where
  "differenceInSeconds later earlier =
     (let diff = later - earlier in if 0 \<le> diff then diff div 1000 else - ((- diff) div 1000))"

record Range =
  start_R :: int
  end_R :: int

definition isWithinInterval :: "int \<Rightarrow> Range \<Rightarrow> bool" where
  "isWithinInterval t r \<longleftrightarrow> start_R r \<le> t \<and> t \<le> end_R r"


text \<open>
  Numbers. A JavaScript number is an IEEE 754 double; the model takes its exact value, a
  rational. \<open>toDouble\<close> rounds a rational to the nearest double, a tie to the one with the
  even significand: the quantum of a value in the binade \<open>2 ^ e \<le> a < 2 ^ (e + 1)\<close> is
  \<open>2 ^ (e - 52)\<close>, and \<open>2 ^ (- 1074)\<close> for the subnormal values. Every sum, difference and
  quotient the pages compute is the exact result rounded by \<open>toDouble\<close>. Overflow to infinity
  (beyond \<open>2 ^ 1024\<close>) and \<open>NaN\<close> are not modelled.
\<close>

definition pow2 :: "int \<Rightarrow> rat" where
  "pow2 e = (if 0 \<le> e then 2 ^ nat e else 1 / 2 ^ nat (- e))"

definition binade :: "rat \<Rightarrow> int" where
  "binade a =
     (let e = bitlen (fst (quotient_of a)) - bitlen (snd (quotient_of a))
      in if pow2 e \<le> a then e else e - 1)"

definition roundHalfEven :: "rat \<Rightarrow> int" where
  "roundHalfEven y =
     (let f = \<lfloor>y\<rfloor>; d = y - of_int f
      in if d < 1 / 2 then f else if 1 / 2 < d then f + 1 else if even f then f else f + 1)"

definition quantum :: "rat \<Rightarrow> rat" where
  "quantum a = pow2 (max (binade a - 52) (- 1074))"

definition roundMagnitude :: "rat \<Rightarrow> rat" where
  "roundMagnitude a = of_int (roundHalfEven (a / quantum a)) * quantum a"

definition toDouble :: "rat \<Rightarrow> rat" where
  "toDouble x =
     (if x = 0 then 0 else if x < 0 then - roundMagnitude (- x) else roundMagnitude x)"

text \<open>
  \<open>x.toFixed(2)\<close> denotes the multiple of 1/100 nearest to the exact value of the double
  \<open>x\<close>, the larger one at a tie, taken on the absolute value (for \<open>x\<close> below \<open>10 ^ 21\<close>);
  \<open>Number\<close> reads the digits back as a double.
\<close>

definition toFixed2 :: "rat \<Rightarrow> rat" where
  "toFixed2 x =
     (if x < 0 then - (of_int \<lfloor>(- x) * 100 + 1 / 2\<rfloor> / 100) else of_int \<lfloor>x * 100 + 1 / 2\<rfloor> / 100)"

definition numberFixed2 :: "rat \<Rightarrow> rat" where
  "numberFixed2 x = toDouble (toFixed2 x)"

text \<open>
  The loops of the report page take the rounding of each arithmetic result as their first
  argument \<open>rnd\<close>. With \<open>toDouble\<close> they compute what the page computes, and the rows the page
  builds are defined so. With the identity the sums are those of exact rationals; these
  instances carry the names \<open>dayWorkSeconds\<close>, \<open>rangeSeconds\<close>, \<open>pieStep\<close> and
  \<open>pieAccumulate\<close>, and differ from the page's values by the rounding of the doubles only.
  \<open>clipSecondsBy\<close> is the expression \<open>Math.max(0, (end - s) / 1000)\<close> of both loops; the
  instants are integers and exact as doubles.
\<close>

definition clipSecondsBy :: "(rat \<Rightarrow> rat) \<Rightarrow> int \<Rightarrow> int \<Rightarrow> rat" where
  "clipSecondsBy rnd end' s = max 0 (rnd (rnd (of_int (end' - s)) / 1000))"

section \<open>Reports (src/pages/Reports.tsx)\<close>

text \<open>
  The page reads the clock several times while it renders (\<open>new Date()\<close>, \<open>Date.now()\<close>); the
  model takes one reading \<open>now\<close> for a render. The range is memoised on the period alone, so it
  is an argument of its own: it was computed from an earlier reading of the clock. For the
  period \<open>day\<close> it is the day of that reading.
\<close>

definition range_day :: "int \<Rightarrow> Range" where
  "range_day now0 = \<lparr>start_R = startOfDay now0, end_R = endOfDay now0\<rparr>"

text \<open>The predicate of the filter that computes \<open>filteredEntries\<close> (lines 41 to 49).\<close>

definition inReport :: "int \<Rightarrow> Range \<Rightarrow> TimeEntry \<Rightarrow> bool" where
  "inReport now r e =
     (if falsyNum (endTime e) \<and> \<not> isWithinInterval now r then False
      else (let start = startTime e; end' = orNow (endTime e) now
            in start \<le> end_R r \<and> end' \<ge> start_R r))"

definition filteredEntries :: "int \<Rightarrow> Range \<Rightarrow> TimeEntry list \<Rightarrow> TimeEntry list" where
  "filteredEntries now r es = filter (inReport now r) es"

text \<open>The body of the \<open>days.map\<close> of \<open>barData\<close> up to \<open>workSeconds\<close> (lines 56 to 72), then the
  row it returns; the label \<open>name\<close> of the row is a formatted date and is left out.\<close>

definition workSecondsBy :: "(rat \<Rightarrow> rat) \<Rightarrow> int \<Rightarrow> TimeEntry list \<Rightarrow> int \<Rightarrow> rat" where
  "workSecondsBy rnd now fes day =
     (let dayStart = startOfDay day;
          dayEnd = endOfDay day;
          dayEntries = filter (\<lambda>e. startTime e < dayEnd \<and> orNow (endTime e) now > dayStart) fes
      in foldl (\<lambda>acc e.
                  let s = max (startTime e) dayStart;
                      end' = min (orNow (endTime e) now) dayEnd
                  in rnd (acc + clipSecondsBy rnd end' s))
           0 (filter (\<lambda>e. type_E e = Work) dayEntries))"

definition dayWorkSeconds :: "int \<Rightarrow> TimeEntry list \<Rightarrow> int \<Rightarrow> rat" where
  "dayWorkSeconds = workSecondsBy (\<lambda>x. x)"




text \<open>\<open>pieData\<close>. The \<open>Map\<close> keeps its keys in the order of their first insertion; it is an
  association list, \<open>mapSet\<close> overwriting in place or appending.\<close>

fun mapSet :: "(string \<times> rat) list \<Rightarrow> string \<Rightarrow> rat \<Rightarrow> (string \<times> rat) list" where
  "mapSet [] k v = [(k, v)]"
| "mapSet ((k', v') # m) k v = (if k' = k then (k, v) # m else (k', v') # mapSet m k v)"

text \<open>\<open>projectMap.get(e.projectId) || 0\<close>.\<close>

definition getOr0 :: "(string \<times> rat) list \<Rightarrow> string \<Rightarrow> rat" where
  "getOr0 m k = (case map_of m k of None \<Rightarrow> 0 | Some v \<Rightarrow> v)"

text \<open>The body of the \<open>forEach\<close>: first the seconds of the entry inside the range (lines 89
  to 91), then the update of the map or of \<open>noProjectSeconds\<close> (lines 93 to 97). The
  accumulator is the pair of the two.\<close>

definition secondsBy :: "(rat \<Rightarrow> rat) \<Rightarrow> int \<Rightarrow> Range \<Rightarrow> TimeEntry \<Rightarrow> rat" where
  "secondsBy rnd now r e =
     (let s = max (startTime e) (start_R r);
          end' = min (orNow (endTime e) now) (end_R r)
      in clipSecondsBy rnd end' s)"

definition rangeSeconds :: "int \<Rightarrow> Range \<Rightarrow> TimeEntry \<Rightarrow> rat" where
  "rangeSeconds = secondsBy (\<lambda>x. x)"

definition pieStepBy ::
  "(rat \<Rightarrow> rat) \<Rightarrow> int \<Rightarrow> Range \<Rightarrow> (string \<times> rat) list \<times> rat \<Rightarrow> TimeEntry
     \<Rightarrow> (string \<times> rat) list \<times> rat" where
  "pieStepBy rnd now r acc e =
     (let seconds = secondsBy rnd now r e
      in case projectId e of
           None \<Rightarrow> (fst acc, rnd (snd acc + seconds))
         | Some pid \<Rightarrow>
             if pid \<noteq> []
             then (mapSet (fst acc) pid (rnd (getOr0 (fst acc) pid + seconds)), snd acc)
             else (fst acc, rnd (snd acc + seconds)))"

definition pieStep ::
  "int \<Rightarrow> Range \<Rightarrow> (string \<times> rat) list \<times> rat \<Rightarrow> TimeEntry \<Rightarrow> (string \<times> rat) list \<times> rat" where
  "pieStep = pieStepBy (\<lambda>x. x)"

text \<open>The loop over the work entries of \<open>filteredEntries\<close> (line 87).\<close>

definition pieAccumulateBy ::
  "(rat \<Rightarrow> rat) \<Rightarrow> int \<Rightarrow> Range \<Rightarrow> TimeEntry list \<Rightarrow> (string \<times> rat) list \<times> rat" where
  "pieAccumulateBy rnd now r fes =
     foldl (pieStepBy rnd now r) ([], 0) (filter (\<lambda>e. type_E e = Work) fes)"

definition pieAccumulate :: "int \<Rightarrow> Range \<Rightarrow> TimeEntry list \<Rightarrow> (string \<times> rat) list \<times> rat" where
  "pieAccumulate = pieAccumulateBy (\<lambda>x. x)"

record PieRow =
  name_Row :: string
  value_Row :: rat
  color_Row :: string

text \<open>The row of one pair of the map (lines 100 to 107): \<open>projects.find\<close> may find nothing,
  and \<open>project?.name || 'Unknown'\<close> then gives the default, as it does for an empty name.\<close>

definition projectRow :: "Project list \<Rightarrow> string \<times> rat \<Rightarrow> PieRow" where
  "projectRow ps kv =
     (let project = find (\<lambda>p. id_P p = fst kv) ps
      in \<lparr>name_Row = (case project of None \<Rightarrow> ''Unknown''
                      | Some p \<Rightarrow> if name_P p = [] then ''Unknown'' else name_P p),
          value_Row = numberFixed2 (toDouble (snd kv / 3600)),
          color_Row = (case project of None \<Rightarrow> ''#999''
                       | Some p \<Rightarrow> if color_P p = [] then ''#999'' else color_P p)\<rparr>)"

definition pieData :: "int \<Rightarrow> Range \<Rightarrow> Project list \<Rightarrow> TimeEntry list \<Rightarrow> PieRow list" where
  "pieData now r ps fes =
     (let acc = pieAccumulateBy toDouble now r fes;
          data = map (projectRow ps) (fst acc)
      in if snd acc > 60
         then data @ [\<lparr>name_Row = ''No Project'',
                       value_Row = numberFixed2 (toDouble (snd acc / 3600)),
                       color_Row = ''#ccc''\<rparr>]
         else data)"

section \<open>Dashboard (src/pages/Dashboard.tsx)\<close>

text \<open>\<open>isToday\<close> reads the clock when the page renders; \<open>now\<close> is the state the one-second
  tick refreshes. They are two arguments. The totals are sums of whole seconds, integers
  that are exact as doubles.\<close>

definition todayEntries :: "int \<Rightarrow> TimeEntry list \<Rightarrow> TimeEntry list" where
  "todayEntries clock es = filter (\<lambda>e. isToday clock (startTime e)) es"

datatype Category = Active | Rest

definition calculateTotalSeconds :: "int \<Rightarrow> TimeEntry list \<Rightarrow> Category \<Rightarrow> int" where
  "calculateTotalSeconds now tes category =
     foldl (\<lambda>acc entry. let end' = orNow (endTime entry) now
                         in acc + differenceInSeconds end' (startTime entry))
       0
       (filter (\<lambda>e. if category = Active
                     then type_E e = Work \<or> (type_E e = Break \<and> truthyBool (isWorkingBreak e))
                     else type_E e = Break \<and> \<not> truthyBool (isWorkingBreak e))
          tes)"

section \<open>The spec's clipped duration\<close>

text \<open>
  These definitions follow the words of the specification, not the source: the effective
  end of an entry, the clipped duration of an entry within a window, in milliseconds, and the
  entries a report counts. The theorems below compare them with what the pages compute.
  \<open>clippedSeconds\<close> is the clipped duration in seconds, as a double.
\<close>

definition effective_end :: "int \<Rightarrow> TimeEntry \<Rightarrow> int" where
  "effective_end now e = (case endTime e of None \<Rightarrow> now | Some t \<Rightarrow> t)"

definition clipped :: "int \<Rightarrow> TimeEntry \<Rightarrow> int \<Rightarrow> int \<Rightarrow> int" where
  "clipped now e w_start w_end =
     max 0 (min (effective_end now e) w_end - max (startTime e) w_start)"

definition reported :: "int \<Rightarrow> Range \<Rightarrow> TimeEntry \<Rightarrow> bool" where
  "reported now r e \<longleftrightarrow>
     type_E e = Work \<and>
     (endTime e = None \<longrightarrow> start_R r \<le> now \<and> now \<le> end_R r) \<and>
     startTime e \<le> end_R r \<and> start_R r \<le> effective_end now e"

definition clippedSeconds :: "int \<Rightarrow> TimeEntry \<Rightarrow> int \<Rightarrow> int \<Rightarrow> rat" where
  "clippedSeconds now e w_start w_end =
     toDouble (toDouble (of_int (clipped now e w_start w_end)) / 1000)"

text \<open>The seconds the loop of \<open>pieData\<close> has accumulated over all its buckets.\<close>

definition accTotal :: "(string \<times> rat) list \<times> rat \<Rightarrow> rat" where
  "accTotal acc = sum_list (map snd (fst acc)) + snd acc"

section \<open>Concrete inputs\<close>

definition call1 :: StartCall where
  "call1 = \<lparr>now_C = 1000, uuid_C = ''a'', type_C = Work, projectId_C = None, tagIds_C = None,
            targetDuration_C = None, isWorkingBreak_C = None\<rparr>"

definition store1 :: TimeStore where
  "store1 = \<lparr>entries =
       [\<lparr>id_E = ''a'', startTime = 1000, endTime = Some 5000, type_E = Work, projectId = None,
         tagIds = [], notes_E = None, targetDuration = Some 1500, isWorkingBreak = Some False\<rparr>],
     projects = [], tags = []\<rparr>"

text \<open>
  Instants of the first week of January 2024 (UTC): Monday 1 January, 00:00:00.000, is
  1704067200000. \<open>weekRange\<close> is that calendar week, Monday to Sunday, as the period \<open>week\<close>
  gives it; \<open>entryMidnight\<close> is a work entry from 23:30 on Monday to 00:30 on Tuesday;
  \<open>entryBreak\<close> a rest break on Monday, 12:00 to 12:30; \<open>entryLong\<close> a work entry started on
  Sunday 31 December at 22:00 and still running; \<open>entryOld\<close> a work entry on Saturday
  30 December, 10:00 to 11:00.
\<close>

definition monday :: int where
  "monday = 1704067200000"

definition weekRange :: Range where
  "weekRange = \<lparr>start_R = 1704067200000, end_R = 1704671999999\<rparr>"

definition entryMidnight :: TimeEntry where
  "entryMidnight = \<lparr>id_E = ''m'', startTime = 1704151800000, endTime = Some 1704155400000,
     type_E = Work, projectId = Some ''p1'', tagIds = [], notes_E = None,
     targetDuration = Some 1500, isWorkingBreak = Some False\<rparr>"

definition entryBreak :: TimeEntry where
  "entryBreak = \<lparr>id_E = ''b'', startTime = 1704110400000, endTime = Some 1704112200000,
     type_E = Break, projectId = None, tagIds = [], notes_E = None,
     targetDuration = Some 300, isWorkingBreak = Some False\<rparr>"

definition entryLong :: TimeEntry where
  "entryLong = \<lparr>id_E = ''l'', startTime = 1704060000000, endTime = None,
     type_E = Work, projectId = None, tagIds = [], notes_E = None,
     targetDuration = Some 1500, isWorkingBreak = Some False\<rparr>"

definition entryOld :: TimeEntry where
  "entryOld = \<lparr>id_E = ''o'', startTime = 1703930400000, endTime = Some 1703934000000,
     type_E = Work, projectId = None, tagIds = [], notes_E = None,
     targetDuration = Some 1500, isWorkingBreak = Some False\<rparr>"

text \<open>
  Entries of Monday 1 January 2024 for the dashboard: work from 09:00 to 11:00, a working
  break from 15:00 to 15:10, and work started at 16:00 that is still running.
\<close>

definition entryWork :: TimeEntry where
  "entryWork = \<lparr>id_E = ''w'', startTime = 1704099600000, endTime = Some 1704106800000,
     type_E = Work, projectId = Some ''p1'', tagIds = [], notes_E = None,
     targetDuration = Some 1500, isWorkingBreak = Some False\<rparr>"

definition entryWorkingBreak :: TimeEntry where
  "entryWorkingBreak = \<lparr>id_E = ''k'', startTime = 1704121200000, endTime = Some 1704121800000,
     type_E = Break, projectId = None, tagIds = [], notes_E = None,
     targetDuration = Some 300, isWorkingBreak = Some True\<rparr>"

definition entryRunning :: TimeEntry where
  "entryRunning = \<lparr>id_E = ''r'', startTime = 1704124800000, endTime = None,
     type_E = Work, projectId = None, tagIds = [], notes_E = None,
     targetDuration = Some 1500, isWorkingBreak = Some False\<rparr>"

text \<open>
  A project \<open>p1\<close> with three work entries of one hour, two hours and thirty minutes in that
  week, a second project, and a work entry of thirty seconds with no project.
\<close>

definition projectAlpha :: Project where
  "projectAlpha = \<lparr>id_P = ''p1'', name_P = ''Alpha'', color_P = ''#3b82f6'', isArchived = None\<rparr>"

definition projectBeta :: Project where
  "projectBeta = \<lparr>id_P = ''p2'', name_P = ''Beta'', color_P = ''#10b981'', isArchived = None\<rparr>"

definition entryP1a :: TimeEntry where
  "entryP1a = \<lparr>id_E = ''a1'', startTime = 1704099600000, endTime = Some 1704103200000,
     type_E = Work, projectId = Some ''p1'', tagIds = [], notes_E = None,
     targetDuration = Some 1500, isWorkingBreak = Some False\<rparr>"

definition entryP1b :: TimeEntry where
  "entryP1b = \<lparr>id_E = ''a2'', startTime = 1704114000000, endTime = Some 1704121200000,
     type_E = Work, projectId = Some ''p1'', tagIds = [], notes_E = None,
     targetDuration = Some 1500, isWorkingBreak = Some False\<rparr>"

definition entryP1c :: TimeEntry where
  "entryP1c = \<lparr>id_E = ''a3'', startTime = 1704186000000, endTime = Some 1704187800000,
     type_E = Work, projectId = Some ''p1'', tagIds = [], notes_E = None,
     targetDuration = Some 1500, isWorkingBreak = Some False\<rparr>"

definition entryShort :: TimeEntry where
  "entryShort = \<lparr>id_E = ''s'', startTime = 1704106800000, endTime = Some 1704106830000,
     type_E = Work, projectId = None, tagIds = [], notes_E = None,
     targetDuration = Some 1500, isWorkingBreak = Some False\<rparr>"

definition store2 :: TimeStore where
  "store2 = \<lparr>entries = [entryP1a, entryShort, entryP1b, entryBreak, entryP1c],
              projects = [projectAlpha, projectBeta], tags = []\<rparr>"

text \<open>
  The running entry \<open>entryLong\<close> assigned to project \<open>p1\<close>, and three work entries with no
  project on that Monday, of 7.923, 48.703 and 3.374 seconds.
\<close>

definition entryLongP :: TimeEntry where
  "entryLongP = entryLong\<lparr>projectId := Some ''p1''\<rparr>"

definition entryN1 :: TimeEntry where
  "entryN1 = \<lparr>id_E = ''n1'', startTime = 1704099600000, endTime = Some 1704099607923,
     type_E = Work, projectId = None, tagIds = [], notes_E = None,
     targetDuration = Some 1500, isWorkingBreak = Some False\<rparr>"

definition entryN2 :: TimeEntry where
  "entryN2 = \<lparr>id_E = ''n2'', startTime = 1704103200000, endTime = Some 1704103248703,
     type_E = Work, projectId = None, tagIds = [], notes_E = None,
     targetDuration = Some 1500, isWorkingBreak = Some False\<rparr>"

definition entryN3 :: TimeEntry where
  "entryN3 = \<lparr>id_E = ''n3'', startTime = 1704106800000, endTime = Some 1704106803374,
     type_E = Work, projectId = None, tagIds = [], notes_E = None,
     targetDuration = Some 1500, isWorkingBreak = Some False\<rparr>"

section \<open>Properties of the entry store\<close>

subsection \<open>Auxiliary facts\<close>

lemma findIndex_None_iff: "findIndex P xs = None \<longleftrightarrow> (\<forall>x \<in> set xs. \<not> P x)"
  by (induction xs) auto

lemma findIndex_Some:
  "findIndex P xs = Some i \<Longrightarrow> i < length xs \<and> P (xs ! i) \<and> (\<forall>j < i. \<not> P (xs ! j))"
proof (induction xs arbitrary: i)
  case Nil
  then show ?case by simp
next
  case (Cons x xs)
  show ?case
  proof (cases "P x")
    case True
    with Cons.prems show ?thesis by simp
  next
    case False
    with Cons.prems obtain k where k: "findIndex P xs = Some k" "i = Suc k"
      by auto
    from Cons.IH [OF k(1)] False k(2) show ?thesis
      by (auto simp: nth_Cons split: nat.splits)
  qed
qed

lemma findIndex_Some_ex: "\<exists>x \<in> set xs. P x \<Longrightarrow> \<exists>i. findIndex P xs = Some i"
  using findIndex_None_iff [of P xs] by (cases "findIndex P xs") auto

lemma isOpen_close [simp]: "\<not> isOpen (e\<lparr>endTime := Some t\<rparr>)"
  by (simp add: isOpen_def)

lemma filter_isOpen_close:
  "length (filter isOpen xs) \<le> 1 \<Longrightarrow> findIndex isOpen xs = Some i \<Longrightarrow>
   filter isOpen (xs[i := (xs ! i)\<lparr>endTime := Some now\<rparr>]) = []"
proof (induction xs arbitrary: i)
  case Nil
  then show ?case by simp
next
  case (Cons x xs)
  show ?case
  proof (cases "isOpen x")
    case True
    with Cons.prems have "i = 0" "filter isOpen xs = []" by auto
    then show ?thesis by simp
  next
    case False
    with Cons.prems obtain k where k: "findIndex isOpen xs = Some k" "i = Suc k"
      by auto
    from Cons.prems False have "length (filter isOpen xs) \<le> 1" by simp
    from Cons.IH [OF this k(1)] False k(2) show ?thesis by simp
  qed
qed

lemma filter_isOpen_Nil: "findIndex isOpen xs = None \<Longrightarrow> filter isOpen xs = []"
  by (simp add: findIndex_None_iff filter_empty_conv)

lemma startEntry_open:
  assumes "length (filter isOpen (entries s)) \<le> 1"
  shows "filter isOpen (entries (startEntry now uuid ty pid tids td wb s)) =
           [last (entries (startEntry now uuid ty pid tids td wb s))]"
proof (cases "findIndex isOpen (entries s)")
  case None
  then show ?thesis
    by (simp add: startEntry_def Let_def filter_isOpen_Nil isOpen_def)
next
  case (Some i)
  from filter_isOpen_close [OF assms Some] Some show ?thesis
    by (simp add: startEntry_def Let_def isOpen_def)
qed

lemma runStarts_snoc: "runStarts (cs @ [c]) = applyStart (runStarts cs) c"
  by (simp add: runStarts_def)

lemma runStarts_inv: "length (filter isOpen (entries (runStarts cs))) \<le> 1"
proof (induction cs rule: rev_induct)
  case Nil
  then show ?case by (simp add: runStarts_def initialStore_def)
next
  case (snoc c cs)
  from startEntry_open [OF snoc.IH] show ?case
    by (simp add: runStarts_snoc applyStart_def)
qed

lemma findIndex_snoc_last:
  "\<forall>x \<in> set xs. \<not> P x \<Longrightarrow> P y \<Longrightarrow> findIndex P (xs @ [y]) = Some (length xs)"
  by (induction xs) auto

subsection \<open>Claims about the store\<close>

text \<open>
  Claim C1. After any sequence of \<open>startEntry\<close> calls on the initial store, whatever their
  arguments, clock readings and generated ids, at most one entry has \<open>endTime = null\<close>; this
  holds for every sequence, hence at every point of one. If an entry is open when
  \<open>startEntry\<close> is called next, the call writes the current instant into that entry's
  \<open>endTime\<close>, leaves every other old entry as it was and appends one entry with
  \<open>endTime = null\<close>, which is then the only open entry.
\<close>

theorem startEntry_single_open:
  "length (filter isOpen (entries (runStarts cs))) \<le> 1 \<and>
   (\<forall>i. findIndex isOpen (entries (runStarts cs)) = Some i \<longrightarrow>
      (let s = runStarts cs; s' = startEntry now uuid ty pid tids td wb s
       in length (entries s') = Suc (length (entries s)) \<and>
          endTime (entries s' ! i) = Some now \<and>
          (\<forall>j < length (entries s). j \<noteq> i \<longrightarrow> entries s' ! j = entries s ! j) \<and>
          endTime (last (entries s')) = None \<and>
          filter isOpen (entries s') = [last (entries s')]))"
proof -
  have inv: "length (filter isOpen (entries (runStarts cs))) \<le> 1"
    by (rule runStarts_inv)
  have "let s = runStarts cs; s' = startEntry now uuid ty pid tids td wb s
       in length (entries s') = Suc (length (entries s)) \<and>
          endTime (entries s' ! i) = Some now \<and>
          (\<forall>j < length (entries s). j \<noteq> i \<longrightarrow> entries s' ! j = entries s ! j) \<and>
          endTime (last (entries s')) = None \<and>
          filter isOpen (entries s') = [last (entries s')]"
    if i: "findIndex isOpen (entries (runStarts cs)) = Some i" for i
  proof -
    from findIndex_Some [OF i] have lt: "i < length (entries (runStarts cs))" by simp
    from startEntry_open [OF inv, of now uuid ty pid tids td wb] i lt show ?thesis
      by (simp add: Let_def startEntry_def nth_append)
  qed
  with inv show ?thesis by blast
qed


text \<open>The statement at one call followed by a second one.\<close>

theorem startEntry_single_open_witness:
  "findIndex isOpen (entries (runStarts [call1])) = Some 0 \<and>
   (let s = runStarts [call1]; s' = startEntry 2000 ''b'' Break None None None None s
    in length (entries s') = Suc (length (entries s)) \<and>
       endTime (entries s' ! 0) = Some 2000 \<and>
       (\<forall>j < length (entries s). j \<noteq> 0 \<longrightarrow> entries s' ! j = entries s ! j) \<and>
       endTime (last (entries s')) = None \<and>
       filter isOpen (entries s') = [last (entries s')])"
proof -
  have i: "findIndex isOpen (entries (runStarts [call1])) = Some 0"
    by (simp add: runStarts_def applyStart_def startEntry_def initialStore_def isOpen_def call1_def)
  from startEntry_single_open [of "[call1]" 2000 "''b''" Break None None None None] i
  show ?thesis by simp
qed

text \<open>
  Claim C7, as amended. From a state with no open entry, \<open>startEntry\<close> followed by
  \<open>stopEntry\<close> leaves the old entries in place and adds exactly one entry, which is closed:
  its \<open>startTime\<close> is the clock reading \<open>now1\<close> of the first call and its \<open>endTime\<close> the
  reading \<open>now2\<close> of the second. Its \<open>endTime\<close> is not before its \<open>startTime\<close> whenever the
  clock has not stepped back between the two calls.
\<close>

theorem start_then_stop:
  assumes closed: "\<forall>e \<in> set (entries s). endTime e \<noteq> None"
  shows "\<exists>e. entries (stopEntry now2 (startEntry now1 uuid ty pid tids td wb s)) = entries s @ [e] \<and>
             id_E e = uuid \<and> startTime e = now1 \<and> endTime e = Some now2 \<and>
             (now1 \<le> now2 \<longrightarrow> (\<exists>t. endTime e = Some t \<and> startTime e \<le> t)) \<and>
             projects (stopEntry now2 (startEntry now1 uuid ty pid tids td wb s)) = projects s \<and>
             tags (stopEntry now2 (startEntry now1 uuid ty pid tids td wb s)) = tags s"
proof -
  from closed have none: "findIndex isOpen (entries s) = None"
    by (simp add: findIndex_None_iff isOpen_def)
  define e where "e = \<lparr>id_E = uuid, startTime = now1, endTime = None, type_E = ty,
                      projectId = pid,
                      tagIds = (case tids of None \<Rightarrow> [] | Some ts \<Rightarrow> ts),
                      notes_E = None,
                      targetDuration = Some (case td of
                          None \<Rightarrow> (if ty = Work then 25 * 60 else 5 * 60) | Some t \<Rightarrow> t),
                      isWorkingBreak = Some (wb = Some True)\<rparr>"
  have started: "startEntry now1 uuid ty pid tids td wb s = s\<lparr>entries := entries s @ [e]\<rparr>"
    by (simp add: startEntry_def none e_def Let_def)
  from closed have "\<forall>x \<in> set (entries s). \<not> isOpen x"
    by (simp add: isOpen_def)
  moreover have "isOpen e" by (simp add: isOpen_def e_def)
  ultimately have idx: "findIndex isOpen (entries s @ [e]) = Some (length (entries s))"
    by (rule findIndex_snoc_last)
  have "entries (stopEntry now2 (startEntry now1 uuid ty pid tids td wb s))
          = entries s @ [e\<lparr>endTime := Some now2\<rparr>]"
    by (simp add: started stopEntry_def idx)
  moreover have "projects (stopEntry now2 (startEntry now1 uuid ty pid tids td wb s)) = projects s"
    "tags (stopEntry now2 (startEntry now1 uuid ty pid tids td wb s)) = tags s"
    by (simp_all add: started stopEntry_def idx)
  ultimately show ?thesis
    by (simp add: e_def)
qed

text \<open>The statement on a store holding one closed entry, the clock reading 6000 and then
  6007.\<close>

theorem start_then_stop_witness:
  "list_all (\<lambda>e. endTime e \<noteq> None) (entries store1) \<and> (6000::int) \<le> 6007 \<and>
   (\<exists>e. entries (stopEntry 6007 (startEntry 6000 ''b'' Break None None None None store1))
          = entries store1 @ [e] \<and>
        id_E e = ''b'' \<and> startTime e = 6000 \<and> endTime e = Some 6007 \<and>
        (\<exists>t. endTime e = Some t \<and> startTime e \<le> t) \<and>
        projects (stopEntry 6007 (startEntry 6000 ''b'' Break None None None None store1)) = projects store1 \<and>
        tags (stopEntry 6007 (startEntry 6000 ''b'' Break None None None None store1)) = tags store1)"
proof -
  have h1: "\<forall>e \<in> set (entries store1). endTime e \<noteq> None"
    by (simp add: store1_def)
  have h1': "list_all (\<lambda>e. endTime e \<noteq> None) (entries store1)"
    by (simp add: store1_def)
  have h2: "(6000::int) \<le> 6007" by simp
  from start_then_stop [OF h1, of 6007 6000 "''b''" Break None None None None]
  obtain e where e: "entries (stopEntry 6007 (startEntry 6000 ''b'' Break None None None None store1))
          = entries store1 @ [e]"
    "id_E e = ''b''" "startTime e = 6000" "endTime e = Some 6007"
    "(6000::int) \<le> 6007 \<longrightarrow> (\<exists>t. endTime e = Some t \<and> startTime e \<le> t)"
    "projects (stopEntry 6007 (startEntry 6000 ''b'' Break None None None None store1)) = projects store1"
    "tags (stopEntry 6007 (startEntry 6000 ''b'' Break None None None None store1)) = tags store1"
    by (elim exE conjE)
  from e(5) h2 have "\<exists>t. endTime e = Some t \<and> startTime e \<le> t" by (rule mp)
  with e have "\<exists>e. entries (stopEntry 6007 (startEntry 6000 ''b'' Break None None None None store1))
          = entries store1 @ [e] \<and>
        id_E e = ''b'' \<and> startTime e = 6000 \<and> endTime e = Some 6007 \<and>
        (\<exists>t. endTime e = Some t \<and> startTime e \<le> t) \<and>
        projects (stopEntry 6007 (startEntry 6000 ''b'' Break None None None None store1)) = projects store1 \<and>
        tags (stopEntry 6007 (startEntry 6000 ''b'' Break None None None None store1)) = tags store1"
    by (intro exI [of _ e] conjI)
  with h1' h2 show ?thesis by (intro conjI)
qed

text \<open>
  The claim as it was stated fails when the clock steps back between the two calls, as the
  wall clock \<open>Date.now()\<close> may: with the readings 6000 and then 5000 the one new entry has
  \<open>startTime = 6000\<close> and \<open>endTime = 5000\<close>.
\<close>

theorem start_then_stop_counterexample:
  "startTime (last (entries (stopEntry 5000 (startEntry 6000 ''b'' Break None None None None store1))))
     = 6000 \<and>
   endTime (last (entries (stopEntry 5000 (startEntry 6000 ''b'' Break None None None None store1))))
     = Some 5000 \<and>
   \<not> (\<exists>e. entries (stopEntry 5000 (startEntry 6000 ''b'' Break None None None None store1))
            = entries store1 @ [e] \<and>
          (\<exists>t. endTime e = Some t \<and> startTime e \<le> t))"
  by (simp add: stopEntry_def startEntry_def store1_def isOpen_def)

text \<open>
  Claim C8. If some entry is open, \<open>stopEntry\<close> writes the current instant into the \<open>endTime\<close> of
  the first open entry and changes nothing else: the other entries, the projects and the tags
  stay. If no entry is open, the whole store is unchanged.
\<close>

theorem stopEntry_spec:
  "((\<exists>e \<in> set (entries s). endTime e = None) \<longrightarrow>
      (\<exists>i < length (entries s).
          endTime (entries s ! i) = None \<and> (\<forall>j < i. endTime (entries s ! j) \<noteq> None) \<and>
          stopEntry now s = s\<lparr>entries := (entries s)[i := (entries s ! i)\<lparr>endTime := Some now\<rparr>]\<rparr> \<and>
          endTime (entries (stopEntry now s) ! i) = Some now \<and>
          length (entries (stopEntry now s)) = length (entries s) \<and>
          (\<forall>j < length (entries s). j \<noteq> i \<longrightarrow> entries (stopEntry now s) ! j = entries s ! j) \<and>
          projects (stopEntry now s) = projects s \<and> tags (stopEntry now s) = tags s)) \<and>
   ((\<forall>e \<in> set (entries s). endTime e \<noteq> None) \<longrightarrow> stopEntry now s = s)"
proof -
  have running: "\<exists>i < length (entries s).
          endTime (entries s ! i) = None \<and> (\<forall>j < i. endTime (entries s ! j) \<noteq> None) \<and>
          stopEntry now s = s\<lparr>entries := (entries s)[i := (entries s ! i)\<lparr>endTime := Some now\<rparr>]\<rparr> \<and>
          endTime (entries (stopEntry now s) ! i) = Some now \<and>
          length (entries (stopEntry now s)) = length (entries s) \<and>
          (\<forall>j < length (entries s). j \<noteq> i \<longrightarrow> entries (stopEntry now s) ! j = entries s ! j) \<and>
          projects (stopEntry now s) = projects s \<and> tags (stopEntry now s) = tags s"
    if "\<exists>e \<in> set (entries s). endTime e = None"
  proof -
    from that have "\<exists>e \<in> set (entries s). isOpen e" by (simp add: isOpen_def)
    from findIndex_Some_ex [OF this]
    obtain i where i: "findIndex isOpen (entries s) = Some i" ..
    from findIndex_Some [OF i]
    have props: "i < length (entries s)" "endTime (entries s ! i) = None"
      "\<forall>j < i. endTime (entries s ! j) \<noteq> None"
      by (simp_all add: isOpen_def)
    have eq: "stopEntry now s = s\<lparr>entries := (entries s)[i := (entries s ! i)\<lparr>endTime := Some now\<rparr>]\<rparr>"
      by (simp add: stopEntry_def i)
    from props show ?thesis
      by (intro exI [of _ i]) (simp add: eq)
  qed
  have idle: "stopEntry now s = s" if "\<forall>e \<in> set (entries s). endTime e \<noteq> None"
  proof -
    from that have "findIndex isOpen (entries s) = None"
      by (simp add: findIndex_None_iff isOpen_def)
    then show ?thesis by (simp add: stopEntry_def)
  qed
  from running idle show ?thesis by blast
qed

text \<open>The statement on a store whose only entry is open, and on a store with a closed one.\<close>

theorem stopEntry_spec_witness:
  "(\<exists>e \<in> set (entries (runStarts [call1])). endTime e = None) \<and>
   (\<exists>i < length (entries (runStarts [call1])).
      endTime (entries (runStarts [call1]) ! i) = None \<and>
      endTime (entries (stopEntry 2000 (runStarts [call1])) ! i) = Some 2000 \<and>
      length (entries (stopEntry 2000 (runStarts [call1]))) = length (entries (runStarts [call1]))) \<and>
   list_all (\<lambda>e. endTime e \<noteq> None) (entries store1) \<and> stopEntry 2000 store1 = store1"
proof -
  have h1: "\<exists>e \<in> set (entries (runStarts [call1])). endTime e = None"
    by (simp add: runStarts_def applyStart_def startEntry_def initialStore_def call1_def)
  have h2: "\<forall>e \<in> set (entries store1). endTime e \<noteq> None"
    by (simp add: store1_def)
  from stopEntry_spec [of "runStarts [call1]" 2000] h1
  have c1: "\<exists>i < length (entries (runStarts [call1])).
      endTime (entries (runStarts [call1]) ! i) = None \<and>
      endTime (entries (stopEntry 2000 (runStarts [call1])) ! i) = Some 2000 \<and>
      length (entries (stopEntry 2000 (runStarts [call1]))) = length (entries (runStarts [call1]))"
    by fast
  from stopEntry_spec [of store1 2000] h2 have c2: "stopEntry 2000 store1 = store1"
    by fast
  have h2': "list_all (\<lambda>e. endTime e \<noteq> None) (entries store1)"
    by (simp add: store1_def)
  from h1 c1 h2' c2 show ?thesis by (intro conjI)
qed

text \<open>
  Claim C10. When \<open>startEntry\<close> is called while an entry is open, the \<open>endTime\<close> it writes into
  that entry is the \<open>startTime\<close> of the entry it appends: both are the one clock reading of the
  call. The closed entry keeps its \<open>startTime\<close>.
\<close>

theorem startEntry_no_gap:
  assumes "findIndex isOpen (entries s) = Some i"
  shows "endTime (entries s ! i) = None \<and>
         endTime (entries (startEntry now uuid ty pid tids td wb s) ! i)
           = Some (startTime (last (entries (startEntry now uuid ty pid tids td wb s)))) \<and>
         startTime (last (entries (startEntry now uuid ty pid tids td wb s))) = now \<and>
         startTime (entries (startEntry now uuid ty pid tids td wb s) ! i) = startTime (entries s ! i)"
proof -
  from findIndex_Some [OF assms] have "i < length (entries s)" "endTime (entries s ! i) = None"
    by (simp_all add: isOpen_def)
  then show ?thesis
    by (simp add: startEntry_def assms Let_def nth_append)
qed

text \<open>The statement on the store that one \<open>startEntry\<close> call leaves.\<close>

theorem startEntry_no_gap_witness:
  "findIndex isOpen (entries (runStarts [call1])) = Some 0 \<and>
   endTime (entries (runStarts [call1]) ! 0) = None \<and>
   endTime (entries (startEntry 2000 ''b'' Break None None None None (runStarts [call1])) ! 0)
     = Some (startTime (last (entries (startEntry 2000 ''b'' Break None None None None (runStarts [call1]))))) \<and>
   startTime (last (entries (startEntry 2000 ''b'' Break None None None None (runStarts [call1])))) = 2000"
proof -
  have h: "findIndex isOpen (entries (runStarts [call1])) = Some 0"
    by (simp add: runStarts_def applyStart_def startEntry_def initialStore_def isOpen_def call1_def)
  from startEntry_no_gap [OF h, of 2000 "''b''" Break None None None None] h
  show ?thesis by (intro conjI) simp_all
qed

text \<open>
  Claim C6. \<open>importData\<close> replaces the three collections: its result does not depend on the
  prior store, each collection is the one given, or empty where the field is missing, and
  importing three empty collections gives the empty store.
\<close>

theorem importData_replaces:
  "importData d s = importData d s' \<and>
   entries (importData d s) = (case entries_D d of None \<Rightarrow> [] | Some es \<Rightarrow> es) \<and>
   projects (importData d s) = (case projects_D d of None \<Rightarrow> [] | Some ps \<Rightarrow> ps) \<and>
   tags (importData d s) = (case tags_D d of None \<Rightarrow> [] | Some ts \<Rightarrow> ts) \<and>
   importData \<lparr>entries_D = Some [], projects_D = Some [], tags_D = Some []\<rparr> s = initialStore"
  by (cases s; cases s') (simp add: importData_def orEmpty_def initialStore_def)

section \<open>Properties of the reports\<close>

subsection \<open>Auxiliary facts about the sums\<close>

lemma foldl_plus: "foldl (\<lambda>acc x. acc + f x) (a::'a::comm_monoid_add) xs = a + sum_list (map f xs)"
  by (induction xs arbitrary: a) (simp_all add: add.assoc)

text \<open>The instances of the loops with exact sums, written out.\<close>

lemma dayWorkSeconds_exact:
  "dayWorkSeconds now fes day =
     (let dayStart = startOfDay day;
          dayEnd = endOfDay day;
          dayEntries = filter (\<lambda>e. startTime e < dayEnd \<and> orNow (endTime e) now > dayStart) fes
      in foldl (\<lambda>acc e.
                  let s = max (startTime e) dayStart;
                      end' = min (orNow (endTime e) now) dayEnd
                  in acc + max 0 (of_int (end' - s) / 1000))
           0 (filter (\<lambda>e. type_E e = Work) dayEntries))"
  by (simp add: dayWorkSeconds_def workSecondsBy_def clipSecondsBy_def)

lemma rangeSeconds_exact:
  "rangeSeconds now r e =
     (let s = max (startTime e) (start_R r);
          end' = min (orNow (endTime e) now) (end_R r)
      in max 0 (of_int (end' - s) / 1000))"
  by (simp add: rangeSeconds_def secondsBy_def clipSecondsBy_def)

lemma pieStep_exact:
  "pieStep now r acc e =
     (let seconds = rangeSeconds now r e
      in case projectId e of
           None \<Rightarrow> (fst acc, snd acc + seconds)
         | Some pid \<Rightarrow>
             if pid \<noteq> []
             then (mapSet (fst acc) pid (getOr0 (fst acc) pid + seconds), snd acc)
             else (fst acc, snd acc + seconds))"
  by (simp add: pieStep_def pieStepBy_def rangeSeconds_def)

lemma pieAccumulate_exact:
  "pieAccumulate now r fes = foldl (pieStep now r) ([], 0) (filter (\<lambda>e. type_E e = Work) fes)"
  by (simp add: pieAccumulate_def pieAccumulateBy_def pieStep_def)

lemma orNow_effective: "endTime e \<noteq> Some 0 \<Longrightarrow> orNow (endTime e) now = effective_end now e"
  by (simp add: orNow_def effective_end_def split: option.splits)

lemma dayWorkSeconds_sum:
  "dayWorkSeconds now fes day =
     (\<Sum>e\<leftarrow>fes. if type_E e = Work
                then of_int (max 0 (min (orNow (endTime e) now) (endOfDay day)
                                    - max (startTime e) (startOfDay day))) / 1000
                else 0)"
proof -
  have "dayWorkSeconds now fes day =
     (\<Sum>e\<leftarrow>fes. if startTime e < endOfDay day \<and> orNow (endTime e) now > startOfDay day
        then (if type_E e = Work
                then max 0 (of_int (min (orNow (endTime e) now) (endOfDay day)
                                    - max (startTime e) (startOfDay day)) / 1000)
                else 0) else 0)"
    by (simp add: dayWorkSeconds_exact Let_def foldl_plus sum_list_map_filter' del: of_int_diff)
  also have "\<dots> = (\<Sum>e\<leftarrow>fes. if type_E e = Work
                then of_int (max 0 (min (orNow (endTime e) now) (endOfDay day)
                                    - max (startTime e) (startOfDay day))) / 1000
                else 0)"
    by (rule arg_cong [where f = sum_list], rule map_cong) (auto simp: max_def min_def)
  finally show ?thesis .
qed

lemma inReport_iff:
  "endTime e \<noteq> Some 0 \<Longrightarrow>
   inReport now r e \<longleftrightarrow>
     (endTime e = None \<longrightarrow> start_R r \<le> now \<and> now \<le> end_R r) \<and>
     startTime e \<le> end_R r \<and> start_R r \<le> effective_end now e"
  by (auto simp: inReport_def falsyNum_def isWithinInterval_def Let_def orNow_effective)

lemma sum_list_cong: "(\<And>x. x \<in> set xs \<Longrightarrow> f x = g x) \<Longrightarrow> sum_list (map f xs) = sum_list (map g xs)"
  by (rule arg_cong [where f = sum_list], rule map_cong) simp_all

lemma dayWorkSeconds_filtered:
  assumes "\<forall>e \<in> set es. endTime e \<noteq> Some 0"
  shows "dayWorkSeconds now (filteredEntries now r es) day =
     (\<Sum>e\<leftarrow>es. if reported now r e
                then of_int (clipped now e (startOfDay day) (endOfDay day)) / 1000 else 0)"
proof -
  have "dayWorkSeconds now (filteredEntries now r es) day =
     (\<Sum>e\<leftarrow>es. if inReport now r e then
          (if type_E e = Work
                then of_int (max 0 (min (orNow (endTime e) now) (endOfDay day)
                                    - max (startTime e) (startOfDay day))) / 1000
                else 0) else 0)"
    by (simp add: dayWorkSeconds_sum filteredEntries_def sum_list_map_filter')
  also have "\<dots> = (\<Sum>e\<leftarrow>es. if reported now r e
                then of_int (clipped now e (startOfDay day) (endOfDay day)) / 1000 else 0)"
  proof (rule sum_list_cong)
    fix e assume "e \<in> set es"
    with assms have nz: "endTime e \<noteq> Some 0" by blast
    show "(if inReport now r e then
          (if type_E e = Work
                then of_int (max 0 (min (orNow (endTime e) now) (endOfDay day)
                                    - max (startTime e) (startOfDay day))) / 1000
                else 0) else 0) =
          (if reported now r e
                then rat_of_int (clipped now e (startOfDay day) (endOfDay day)) / 1000 else 0)"
    proof -
      from inReport_iff [OF nz, of now r]
      have "reported now r e \<longleftrightarrow> inReport now r e \<and> type_E e = Work"
        by (auto simp: reported_def)
      then show ?thesis
        unfolding orNow_effective [OF nz] clipped_def by auto
    qed
  qed
  finally show ?thesis .
qed

lemma sum_mapSet:
  "sum_list (map snd (mapSet m k (getOr0 m k + v))) = sum_list (map snd m) + v"
proof (induction m)
  case Nil
  then show ?case by (simp add: getOr0_def)
next
  case (Cons a m)
  obtain k' v' where a: "a = (k', v')" by (cases a)
  show ?case
  proof (cases "k' = k")
    case True
    then show ?thesis by (simp add: a getOr0_def)
  next
    case False
    then have "getOr0 (a # m) k = getOr0 m k" by (simp add: a getOr0_def)
    with Cons.IH False show ?thesis by (simp add: a)
  qed
qed

lemma accTotal_pieStep: "accTotal (pieStep now r acc e) = accTotal acc + rangeSeconds now r e"
  by (simp add: accTotal_def pieStep_exact Let_def sum_mapSet split: option.splits)

lemma accTotal_foldl:
  "accTotal (foldl (pieStep now r) acc es) = accTotal acc + (\<Sum>e\<leftarrow>es. rangeSeconds now r e)"
  by (induction es arbitrary: acc) (simp_all add: accTotal_pieStep)

lemma rangeSeconds_clipped:
  "endTime e \<noteq> Some 0 \<Longrightarrow>
   rangeSeconds now r e = of_int (clipped now e (start_R r) (end_R r)) / 1000"
  by (simp add: rangeSeconds_exact Let_def orNow_effective clipped_def max_def del: of_int_diff)

lemma pie_filtered:
  assumes "\<forall>e \<in> set es. endTime e \<noteq> Some 0"
  shows "accTotal (pieAccumulate now r (filteredEntries now r es)) =
     (\<Sum>e\<leftarrow>es. if reported now r e
                then of_int (clipped now e (start_R r) (end_R r)) / 1000 else 0)"
proof -
  have "accTotal (pieAccumulate now r (filteredEntries now r es)) =
     (\<Sum>e\<leftarrow>es. if inReport now r e then (if type_E e = Work then rangeSeconds now r e else 0) else 0)"
  proof -
    have "accTotal (pieAccumulate now r (filteredEntries now r es)) =
       (\<Sum>e\<leftarrow>filter (\<lambda>e. type_E e = Work) (filter (inReport now r) es). rangeSeconds now r e)"
      by (simp add: pieAccumulate_exact accTotal_foldl filteredEntries_def) (simp add: accTotal_def)
    also have "\<dots> = (\<Sum>e\<leftarrow>es. if inReport now r e \<and> type_E e = Work then rangeSeconds now r e else 0)"
      by (simp add: sum_list_map_filter')
    also have "\<dots> = (\<Sum>e\<leftarrow>es. if inReport now r e then (if type_E e = Work then rangeSeconds now r e else 0) else 0)"
      by (rule sum_list_cong) simp
    finally show ?thesis .
  qed
  also have "\<dots> = (\<Sum>e\<leftarrow>es. if reported now r e
                then of_int (clipped now e (start_R r) (end_R r)) / 1000 else 0)"
  proof (rule sum_list_cong)
    fix e assume "e \<in> set es"
    with assms have nz: "endTime e \<noteq> Some 0" by blast
    show "(if inReport now r e then (if type_E e = Work then rangeSeconds now r e else 0) else 0) =
          (if reported now r e
                then rat_of_int (clipped now e (start_R r) (end_R r)) / 1000 else 0)"
    proof -
      from inReport_iff [OF nz, of now r]
      have "reported now r e \<longleftrightarrow> inReport now r e \<and> type_E e = Work"
        by (auto simp: reported_def)
      then show ?thesis
        unfolding rangeSeconds_clipped [OF nz] by auto
    qed
  qed
  finally show ?thesis .
qed


lemma sum_list_zero: "(\<And>x. x \<in> set xs \<Longrightarrow> f x = (0::rat)) \<Longrightarrow> sum_list (map f xs) = 0"
  by (induction xs) simp_all

lemma clipped_nonneg: "0 \<le> clipped now e w_start w_end"
  by (simp add: clipped_def)

lemma clipped_outside:
  "effective_end now e \<le> w_start \<or> w_end \<le> startTime e \<Longrightarrow> w_start \<le> w_end \<Longrightarrow>
   clipped now e w_start w_end = 0"
  by (auto simp: clipped_def max_def min_def)

lemma startOfDay_le_endOfDay: "startOfDay day \<le> endOfDay day"
  by (simp add: endOfDay_def msPerDay_def)

text \<open>The dashboard totals as sums over the entries.\<close>

lemma calculateTotalSeconds_sum:
  "calculateTotalSeconds now tes category =
     (\<Sum>e\<leftarrow>tes. if (if category = Active
                     then type_E e = Work \<or> (type_E e = Break \<and> truthyBool (isWorkingBreak e))
                     else type_E e = Break \<and> \<not> truthyBool (isWorkingBreak e))
                then differenceInSeconds (orNow (endTime e) now) (startTime e) else 0)"
  by (simp add: calculateTotalSeconds_def Let_def foldl_plus sum_list_map_filter')

subsection \<open>Auxiliary facts about the doubles\<close>

lemma roundHalfEven_nonneg: "0 \<le> roundHalfEven y" if "0 \<le> y"
proof -
  from that have "0 \<le> \<lfloor>y\<rfloor>" by simp
  then show ?thesis by (simp add: roundHalfEven_def Let_def)
qed

lemma pow2_pos: "0 < pow2 e"
  by (simp add: pow2_def)

lemma roundMagnitude_nonneg: "0 \<le> roundMagnitude a" if "0 \<le> a"
proof -
  have q: "0 < quantum a" by (simp add: quantum_def pow2_pos)
  with that have "0 \<le> a / quantum a" by simp
  then have "0 \<le> roundHalfEven (a / quantum a)" by (rule roundHalfEven_nonneg)
  with q show ?thesis by (simp add: roundMagnitude_def)
qed

lemma toDouble_zero: "toDouble 0 = 0"
  by (simp add: toDouble_def)

lemma toDouble_nonneg: "0 \<le> x \<Longrightarrow> 0 \<le> toDouble x"
  by (simp add: toDouble_def roundMagnitude_nonneg)

lemma toDouble_nonpos: "x \<le> 0 \<Longrightarrow> toDouble x \<le> 0"
  using roundMagnitude_nonneg [of "- x"] by (simp add: toDouble_def)

text \<open>The seconds of a clipped interval: flooring at zero before or after the rounding is
  the same.\<close>

lemma clipSecondsBy_max:
  "clipSecondsBy toDouble end' s = toDouble (toDouble (of_int (max 0 (end' - s))) / 1000)"
proof (cases "end' - s \<le> 0")
  case True
  then have "rat_of_int (end' - s) \<le> 0" by simp
  then have "toDouble (rat_of_int (end' - s)) / 1000 \<le> 0"
    using toDouble_nonpos by fastforce
  then have "toDouble (toDouble (rat_of_int (end' - s)) / 1000) \<le> 0"
    by (rule toDouble_nonpos)
  with True show ?thesis
    by (simp add: clipSecondsBy_def max_def toDouble_zero)
next
  case False
  then have "0 \<le> rat_of_int (end' - s)" by simp
  then have "0 \<le> toDouble (rat_of_int (end' - s)) / 1000"
    using toDouble_nonneg by fastforce
  then have "0 \<le> toDouble (toDouble (rat_of_int (end' - s)) / 1000)"
    by (rule toDouble_nonneg)
  with False show ?thesis
    by (simp add: clipSecondsBy_def max_def)
qed

lemma secondsBy_clipped:
  "endTime e \<noteq> Some 0 \<Longrightarrow>
   secondsBy toDouble now r e = clippedSeconds now e (start_R r) (end_R r)"
  by (simp add: secondsBy_def clipSecondsBy_max clippedSeconds_def clipped_def orNow_effective)

text \<open>Values of the rounding that the examples need.\<close>

lemma toDouble_values:
  "toDouble 1 = 1" "toDouble (1 / 2) = 1 / 2" "toDouble (7 / 2) = 7 / 2"
  "toDouble 1800 = 1800" "toDouble 3600 = 3600" "toDouble 7200 = 7200"
  "toDouble 10800 = 10800" "toDouble 12600 = 12600"
  "toDouble 1799999 = 1799999" "toDouble 1800000 = 1800000" "toDouble 3600000 = 3600000"
  "toDouble 7200000 = 7200000"
  by code_simp+

text \<open>The day bucket in doubles: the seconds the page sums for a day are the double sum of
  the clipped seconds of the counted entries that overlap the day.\<close>

lemma workSeconds_double_clipped:
  assumes nz: "\<forall>e \<in> set es. endTime e \<noteq> Some 0"
  shows "workSecondsBy toDouble now (filteredEntries now r es) day =
     foldl (\<lambda>a e. toDouble (a + clippedSeconds now e (startOfDay day) (endOfDay day))) 0
       (filter (\<lambda>e. reported now r e \<and>
                    startTime e < endOfDay day \<and> startOfDay day < effective_end now e) es)"
proof -
  let ?Q = "\<lambda>e. startTime e < endOfDay day \<and> startOfDay day < effective_end now e"
  have "filter (\<lambda>e. type_E e = Work)
          (filter (\<lambda>e. startTime e < endOfDay day \<and> startOfDay day < orNow (endTime e) now)
             (filteredEntries now r es))
      = filter (\<lambda>e. (inReport now r e \<and> type_E e = Work) \<and>
            (startTime e < endOfDay day \<and> startOfDay day < orNow (endTime e) now)) es"
    by (simp add: filteredEntries_def conj_commute conj_left_commute)
  also have "\<dots> = filter (\<lambda>e. reported now r e \<and> ?Q e) es"
  proof (rule filter_cong [OF refl])
    fix e assume "e \<in> set es"
    with nz have z: "endTime e \<noteq> Some 0" by blast
    from inReport_iff [OF z, of now r]
    have "reported now r e \<longleftrightarrow> inReport now r e \<and> type_E e = Work"
      by (auto simp: reported_def)
    then show "((inReport now r e \<and> type_E e = Work) \<and>
        (startTime e < endOfDay day \<and> startOfDay day < orNow (endTime e) now)) =
        (reported now r e \<and> ?Q e)"
      by (simp add: orNow_effective [OF z])
  qed
  finally have kept: "filter (\<lambda>e. type_E e = Work)
          (filter (\<lambda>e. startTime e < endOfDay day \<and> startOfDay day < orNow (endTime e) now)
             (filteredEntries now r es))
      = filter (\<lambda>e. reported now r e \<and> ?Q e) es" .
  have "workSecondsBy toDouble now (filteredEntries now r es) day =
      foldl (\<lambda>acc e. toDouble (acc + clipSecondsBy toDouble
                (min (orNow (endTime e) now) (endOfDay day)) (max (startTime e) (startOfDay day))))
        0 (filter (\<lambda>e. reported now r e \<and> ?Q e) es)"
    unfolding kept [symmetric] by (simp add: workSecondsBy_def Let_def)
  also have "\<dots> =
      foldl (\<lambda>a e. toDouble (a + clippedSeconds now e (startOfDay day) (endOfDay day))) 0
        (filter (\<lambda>e. reported now r e \<and> ?Q e) es)"
  proof (rule foldl_cong [OF refl refl])
    fix a e assume "e \<in> set (filter (\<lambda>e. reported now r e \<and> ?Q e) es)"
    with nz have z: "endTime e \<noteq> Some 0" by simp
    show "toDouble (a + clipSecondsBy toDouble
                (min (orNow (endTime e) now) (endOfDay day)) (max (startTime e) (startOfDay day)))
        = toDouble (a + clippedSeconds now e (startOfDay day) (endOfDay day))"
      by (simp add: clipSecondsBy_max clippedSeconds_def clipped_def orNow_effective [OF z])
  qed
  finally show ?thesis .
qed

subsection \<open>Auxiliary facts about the days\<close>


















subsection \<open>Auxiliary facts about the project map\<close>

lemma map_of_mapSet: "map_of (mapSet m k v) k' = (if k' = k then Some v else map_of m k')"
  by (induction m) auto

lemma keys_mapSet:
  "map fst (mapSet m k v) = (if k \<in> fst ` set m then map fst m else map fst m @ [k])"
proof (induction m)
  case Nil
  then show ?case by simp
next
  case (Cons a m)
  obtain k' v' where a: "a = (k', v')" by (cases a)
  show ?case
  proof (cases "k' = k")
    case True
    then show ?thesis by (simp add: a)
  next
    case False
    with Cons.IH show ?thesis by (simp add: a)
  qed
qed

lemma distinct_mapSet: "distinct (map fst m) \<Longrightarrow> distinct (map fst (mapSet m k v))"
  by (simp add: keys_mapSet)

lemma getOr0_mapSet: "getOr0 (mapSet m k v) k' = (if k' = k then v else getOr0 m k')"
  by (simp add: getOr0_def map_of_mapSet)

lemma pieStepBy_fst:
  "fst (pieStepBy rnd now r acc e) =
     (case projectId e of None \<Rightarrow> fst acc
      | Some q \<Rightarrow> if q \<noteq> []
                  then mapSet (fst acc) q (rnd (getOr0 (fst acc) q + secondsBy rnd now r e))
                  else fst acc)"
  by (simp add: pieStepBy_def Let_def split: option.splits)

lemma pieStepBy_snd:
  "snd (pieStepBy rnd now r acc e) =
     (if projectId e = None \<or> projectId e = Some [] then rnd (snd acc + secondsBy rnd now r e)
      else snd acc)"
  by (simp add: pieStepBy_def Let_def split: option.splits)

lemma foldl_pieStepBy_distinct:
  "distinct (map fst (fst acc)) \<Longrightarrow>
   distinct (map fst (fst (foldl (pieStepBy rnd now r) acc es)))"
  by (induction es arbitrary: acc) (simp_all add: pieStepBy_fst distinct_mapSet split: option.splits)

lemma foldl_pieStepBy_snd:
  "snd (foldl (pieStepBy rnd now r) acc es) =
     foldl (\<lambda>a e. rnd (a + secondsBy rnd now r e)) (snd acc)
       (filter (\<lambda>e. projectId e = None \<or> projectId e = Some []) es)"
  by (induction es arbitrary: acc) (simp_all add: pieStepBy_snd)

lemma foldl_pieStepBy_map_of:
  "pid \<noteq> [] \<Longrightarrow>
   map_of (fst (foldl (pieStepBy rnd now r) acc es)) pid =
     (if \<exists>e \<in> set es. projectId e = Some pid
      then Some (foldl (\<lambda>a e. rnd (a + secondsBy rnd now r e)) (getOr0 (fst acc) pid)
                   (filter (\<lambda>e. projectId e = Some pid) es))
      else map_of (fst acc) pid)"
proof (induction es arbitrary: acc)
  case Nil
  then show ?case by simp
next
  case (Cons e es)
  let ?acc' = "pieStepBy rnd now r acc e"
  note IH = Cons.IH [OF Cons.prems, of ?acc']
  show ?case
  proof (cases "projectId e = Some pid")
    case True
    with Cons.prems
    have m: "map_of (fst ?acc') pid = Some (rnd (getOr0 (fst acc) pid + secondsBy rnd now r e))"
      and g: "getOr0 (fst ?acc') pid = rnd (getOr0 (fst acc) pid + secondsBy rnd now r e)"
      by (simp_all add: pieStepBy_fst map_of_mapSet getOr0_mapSet)
    from True IH m g show ?thesis
      by (simp add: filter_empty_conv)
  next
    case False
    then have m: "map_of (fst ?acc') pid = map_of (fst acc) pid"
      by (simp add: pieStepBy_fst map_of_mapSet split: option.splits)
    then have g: "getOr0 (fst ?acc') pid = getOr0 (fst acc) pid"
      by (simp add: getOr0_def)
    from False IH m g show ?thesis by simp
  qed
qed

lemma foldl_pieStepBy_empty_key:
  "map_of (fst (foldl (pieStepBy rnd now r) acc es)) [] = map_of (fst acc) []"
  by (induction es arbitrary: acc) (simp_all add: pieStepBy_fst map_of_mapSet split: option.splits)

lemma pieAccumulateBy_map_of:
  "map_of (fst (pieAccumulateBy rnd now r fes)) pid =
     (if pid \<noteq> [] \<and> (\<exists>e \<in> set (filter (\<lambda>e. type_E e = Work) fes). projectId e = Some pid)
      then Some (foldl (\<lambda>a e. rnd (a + secondsBy rnd now r e)) 0
                   (filter (\<lambda>e. projectId e = Some pid) (filter (\<lambda>e. type_E e = Work) fes)))
      else None)"
proof (cases "pid = []")
  case True
  then show ?thesis
    by (simp add: pieAccumulateBy_def foldl_pieStepBy_empty_key)
next
  case False
  have "map_of (fst (pieAccumulateBy rnd now r fes)) pid =
     (if \<exists>e \<in> set (filter (\<lambda>e. type_E e = Work) fes). projectId e = Some pid
      then Some (foldl (\<lambda>a e. rnd (a + secondsBy rnd now r e)) (getOr0 (fst ([], 0::rat)) pid)
                   (filter (\<lambda>e. projectId e = Some pid) (filter (\<lambda>e. type_E e = Work) fes)))
      else map_of (fst ([], 0::rat)) pid)"
    unfolding pieAccumulateBy_def by (rule foldl_pieStepBy_map_of [OF False])
  also have "\<dots> =
     (if pid \<noteq> [] \<and> (\<exists>e \<in> set (filter (\<lambda>e. type_E e = Work) fes). projectId e = Some pid)
      then Some (foldl (\<lambda>a e. rnd (a + secondsBy rnd now r e)) 0
                   (filter (\<lambda>e. projectId e = Some pid) (filter (\<lambda>e. type_E e = Work) fes)))
      else None)"
    using False by (auto simp: getOr0_def)
  finally show ?thesis .
qed

lemma pieAccumulateBy_distinct: "distinct (map fst (fst (pieAccumulateBy rnd now r fes)))"
  by (simp add: pieAccumulateBy_def foldl_pieStepBy_distinct)

lemma pieAccumulateBy_snd:
  "snd (pieAccumulateBy rnd now r fes) =
     foldl (\<lambda>a e. rnd (a + secondsBy rnd now r e)) 0
       (filter (\<lambda>e. projectId e = None \<or> projectId e = Some [])
          (filter (\<lambda>e. type_E e = Work) fes))"
  by (simp add: pieAccumulateBy_def foldl_pieStepBy_snd)

lemma pieAccumulateBy_mem:
  "(pid, tot) \<in> set (fst (pieAccumulateBy rnd now r fes)) \<longleftrightarrow>
     pid \<noteq> [] \<and> (\<exists>e \<in> set (filter (\<lambda>e. type_E e = Work) fes). projectId e = Some pid) \<and>
     tot = foldl (\<lambda>a e. rnd (a + secondsBy rnd now r e)) 0
             (filter (\<lambda>e. projectId e = Some pid) (filter (\<lambda>e. type_E e = Work) fes))"
proof -
  have "(pid, tot) \<in> set (fst (pieAccumulateBy rnd now r fes)) \<longleftrightarrow>
          map_of (fst (pieAccumulateBy rnd now r fes)) pid = Some tot"
    using pieAccumulateBy_distinct [of rnd now r fes] by simp
  also have "\<dots> \<longleftrightarrow> pid \<noteq> [] \<and>
     (\<exists>e \<in> set (filter (\<lambda>e. type_E e = Work) fes). projectId e = Some pid) \<and>
     tot = foldl (\<lambda>a e. rnd (a + secondsBy rnd now r e)) 0
             (filter (\<lambda>e. projectId e = Some pid) (filter (\<lambda>e. type_E e = Work) fes))"
    unfolding pieAccumulateBy_map_of by auto
  finally show ?thesis .
qed

lemma pieData_rows:
  "pieData now r ps fes =
     map (projectRow ps) (fst (pieAccumulateBy toDouble now r fes)) @
     (if 60 < snd (pieAccumulateBy toDouble now r fes)
      then [\<lparr>name_Row = ''No Project'',
              value_Row = numberFixed2 (toDouble (snd (pieAccumulateBy toDouble now r fes) / 3600)),
              color_Row = ''#ccc''\<rparr>]
      else [])"
  by (simp add: pieData_def Let_def)

text \<open>The entries a report counts, and their seconds, in the spec's words.\<close>

lemma reported_filter:
  assumes "\<forall>e \<in> set es. endTime e \<noteq> Some 0"
  shows "filter Q (filter (\<lambda>e. type_E e = Work) (filteredEntries now r es)) =
         filter (\<lambda>e. reported now r e \<and> Q e) es"
proof -
  have "filter Q (filter (\<lambda>e. type_E e = Work) (filteredEntries now r es)) =
        filter (\<lambda>e. (inReport now r e \<and> type_E e = Work) \<and> Q e) es"
    by (simp add: filteredEntries_def conj_commute conj_left_commute)
  also have "\<dots> = filter (\<lambda>e. reported now r e \<and> Q e) es"
  proof (rule filter_cong [OF refl])
    fix e assume "e \<in> set es"
    with assms have nz: "endTime e \<noteq> Some 0" by blast
    from inReport_iff [OF nz, of now r]
    have "reported now r e \<longleftrightarrow> inReport now r e \<and> type_E e = Work"
      by (auto simp: reported_def)
    then show "((inReport now r e \<and> type_E e = Work) \<and> Q e) = (reported now r e \<and> Q e)"
      by simp
  qed
  finally show ?thesis .
qed

lemma foldl_clippedSeconds:
  assumes "\<forall>e \<in> set es. endTime e \<noteq> Some 0"
  shows "foldl (\<lambda>a e. toDouble (a + secondsBy toDouble now r e)) a0 (filter Q es) =
         foldl (\<lambda>a e. toDouble (a + clippedSeconds now e (start_R r) (end_R r))) a0 (filter Q es)"
proof (rule foldl_cong [OF refl refl])
  fix a e assume "e \<in> set (filter Q es)"
  with assms have "endTime e \<noteq> Some 0" by simp
  then show "toDouble (a + secondsBy toDouble now r e) =
      toDouble (a + clippedSeconds now e (start_R r) (end_R r))"
    by (simp add: secondsBy_clipped)
qed

lemma hours_values:
  "numberFixed2 (toDouble (12600 / 3600)) = 7 / 2" "numberFixed2 (toDouble (7 / 2)) = 7 / 2"
  by code_simp+

lemma three_entries:
  assumes P: "P \<noteq> []"
    and work: "list_all (\<lambda>e. type_E e = Work \<and> projectId e = Some P) [e1, e2, e3]"
    and len: "endTime e1 = Some (startTime e1 + 3600000)" "endTime e2 = Some (startTime e2 + 7200000)"
      "endTime e3 = Some (startTime e3 + 1800000)"
    and inside: "list_all (\<lambda>e. start_R r \<le> startTime e \<and> effective_end now e \<le> end_R r \<and>
        endTime e \<noteq> Some 0) [e1, e2, e3]"
  shows "pieData now r ps (filteredEntries now r [e1, e2, e3]) = [projectRow ps (P, 12600)]"
proof -
  from len inside have fe: "filteredEntries now r [e1, e2, e3] = [e1, e2, e3]"
    by (simp add: filteredEntries_def inReport_def falsyNum_def orNow_def Let_def effective_end_def)
  from len inside have "clipped now e1 (start_R r) (end_R r) = 3600000"
    "clipped now e2 (start_R r) (end_R r) = 7200000"
    "clipped now e3 (start_R r) (end_R r) = 1800000"
    by (simp_all add: clipped_def effective_end_def max_def min_def)
  with inside have secs: "secondsBy toDouble now r e1 = 3600" "secondsBy toDouble now r e2 = 7200"
    "secondsBy toDouble now r e3 = 1800"
    by (simp_all add: secondsBy_clipped clippedSeconds_def toDouble_values)
  from P work secs have "pieAccumulateBy toDouble now r [e1, e2, e3] = ([(P, 12600)], 0)"
    by (simp add: pieAccumulateBy_def pieStepBy_def getOr0_def toDouble_values)
  then show ?thesis
    by (simp add: fe pieData_def)
qed

lemma find_deleted: "find (\<lambda>p. id_P p = pid) (projects (deleteProject pid s)) = None"
  by (simp add: deleteProject_def find_None_iff)

text \<open>The rows of the concrete weeks, evaluated.\<close>

lemma noise_rows:
  "map name_Row (pieData 1704200000000 weekRange [projectAlpha, projectBeta]
      (filteredEntries 1704200000000 weekRange [entryN1, entryN2, entryN3])) = [''No Project'']"
  "snd (pieAccumulateBy (\<lambda>x. x) 1704200000000 weekRange
      (filteredEntries 1704200000000 weekRange [entryN1, entryN2, entryN3])) = 60"
  "60 < snd (pieAccumulateBy toDouble 1704200000000 weekRange
      (filteredEntries 1704200000000 weekRange [entryN1, entryN2, entryN3]))"
  by code_simp+

lemma week_rows:
  "pieData 1704200000000 weekRange [projectAlpha, projectBeta]
      (filteredEntries 1704200000000 weekRange [entryP1a, entryShort, entryP1b, entryBreak, entryP1c])
     = [\<lparr>name_Row = ''Alpha'', value_Row = 7 / 2, color_Row = ''#3b82f6''\<rparr>]"
  by code_simp

subsection \<open>Claims about the reports\<close>

text \<open>
  Claim C2, as amended. Let every entry have an \<open>endTime\<close> other than 0, and let the sums
  be exact (the loops with the identity as rounding). The seconds a day bucket of the bar
  chart holds are the sum, over the entries, of each entry's contribution:
  for a work entry that the report's filter keeps it is
  \<open>max(0, min(effective_end, W_end) - max(startTime, W_start)) / 1000\<close> with the bounds of the
  day, where \<open>effective_end\<close> is the \<open>endTime\<close> when set and the clock reading when the entry is
  open; for every other entry it is zero. The same holds for the seconds the pie chart
  accumulates over all its buckets, with the bounds of the report range. The filter keeps an
  entry that starts no later than the end of the range and whose effective end is not before
  the start of the range, and it keeps an open entry only while the clock is inside the
  range. Hence no bucket is negative, entries that lie outside a window add nothing to it,
  and a counted open entry that started before a day and is still running after it adds
  exactly the length of the day window, \<open>endOfDay - startOfDay\<close>: it is clipped at the end
  of the window.
\<close>

theorem clipped_contribution:
  assumes nz: "\<forall>e \<in> set es. endTime e \<noteq> Some 0"
  shows "dayWorkSeconds now (filteredEntries now r es) day =
           (\<Sum>e\<leftarrow>es. if reported now r e
                      then of_int (clipped now e (startOfDay day) (endOfDay day)) / 1000 else 0) \<and>
         accTotal (pieAccumulate now r (filteredEntries now r es)) =
           (\<Sum>e\<leftarrow>es. if reported now r e
                      then of_int (clipped now e (start_R r) (end_R r)) / 1000 else 0) \<and>
         0 \<le> dayWorkSeconds now (filteredEntries now r es) day \<and>
         0 \<le> accTotal (pieAccumulate now r (filteredEntries now r es)) \<and>
         ((\<forall>e \<in> set es. effective_end now e \<le> startOfDay day \<or> endOfDay day \<le> startTime e) \<longrightarrow>
            dayWorkSeconds now (filteredEntries now r es) day = 0) \<and>
         ((\<forall>e \<in> set es. effective_end now e \<le> start_R r \<or> end_R r \<le> startTime e) \<and>
            start_R r \<le> end_R r \<longrightarrow>
            accTotal (pieAccumulate now r (filteredEntries now r es)) = 0) \<and>
         (es = [e] \<and> reported now r e \<and> endTime e = None \<and> startTime e \<le> startOfDay day \<and>
            endOfDay day \<le> now \<longrightarrow>
            dayWorkSeconds now (filteredEntries now r es) day =
              of_int (endOfDay day - startOfDay day) / 1000)"
proof -
  let ?day = "\<lambda>e. if reported now r e
                then rat_of_int (clipped now e (startOfDay day) (endOfDay day)) / 1000 else 0"
  let ?rng = "\<lambda>e. if reported now r e
                then rat_of_int (clipped now e (start_R r) (end_R r)) / 1000 else 0"
  have bar: "dayWorkSeconds now (filteredEntries now r es) day = sum_list (map ?day es)"
    by (rule dayWorkSeconds_filtered [OF nz])
  have pie: "accTotal (pieAccumulate now r (filteredEntries now r es)) = sum_list (map ?rng es)"
    by (rule pie_filtered [OF nz])
  have bar0: "0 \<le> sum_list (map ?day es)"
    by (rule sum_list_nonneg) (auto simp: clipped_nonneg)
  have pie0: "0 \<le> sum_list (map ?rng es)"
    by (rule sum_list_nonneg) (auto simp: clipped_nonneg)
  have barOut: "sum_list (map ?day es) = 0"
    if "\<forall>e \<in> set es. effective_end now e \<le> startOfDay day \<or> endOfDay day \<le> startTime e"
  proof (rule sum_list_zero)
    fix x assume "x \<in> set es"
    with that have "effective_end now x \<le> startOfDay day \<or> endOfDay day \<le> startTime x"
      by blast
    from clipped_outside [OF this startOfDay_le_endOfDay] show "?day x = 0" by simp
  qed
  have pieOut: "sum_list (map ?rng es) = 0"
    if "\<forall>e \<in> set es. effective_end now e \<le> start_R r \<or> end_R r \<le> startTime e"
      and "start_R r \<le> end_R r"
  proof (rule sum_list_zero)
    fix x assume "x \<in> set es"
    with that have "effective_end now x \<le> start_R r \<or> end_R r \<le> startTime x"
      by blast
    from clipped_outside [OF this that(2)] show "?rng x = 0" by simp
  qed
  have barOpen: "sum_list (map ?day es) = of_int (endOfDay day - startOfDay day) / 1000"
    if "es = [e]" "reported now r e" "endTime e = None" "startTime e \<le> startOfDay day"
      "endOfDay day \<le> now"
  proof -
    from that(3-5) startOfDay_le_endOfDay [of day]
    have "clipped now e (startOfDay day) (endOfDay day) = endOfDay day - startOfDay day"
      by (simp add: clipped_def effective_end_def max_def min_def)
    with that(1,2) show ?thesis by simp
  qed
  have c5: "(\<forall>e \<in> set es. effective_end now e \<le> startOfDay day \<or> endOfDay day \<le> startTime e) \<longrightarrow>
            dayWorkSeconds now (filteredEntries now r es) day = 0"
    unfolding bar using barOut by (rule impI)
  have c6: "(\<forall>e \<in> set es. effective_end now e \<le> start_R r \<or> end_R r \<le> startTime e) \<and>
            start_R r \<le> end_R r \<longrightarrow>
            accTotal (pieAccumulate now r (filteredEntries now r es)) = 0"
    unfolding pie using pieOut by (intro impI) (elim conjE)
  have c7: "es = [e] \<and> reported now r e \<and> endTime e = None \<and> startTime e \<le> startOfDay day \<and>
            endOfDay day \<le> now \<longrightarrow>
            dayWorkSeconds now (filteredEntries now r es) day =
              of_int (endOfDay day - startOfDay day) / 1000"
    unfolding bar using barOpen by (intro impI) (elim conjE)
  from bar0 have c3: "0 \<le> dayWorkSeconds now (filteredEntries now r es) day"
    unfolding bar .
  from pie0 have c4: "0 \<le> accTotal (pieAccumulate now r (filteredEntries now r es))"
    unfolding pie .
  from bar pie c3 c4 c5 c6 c7 show ?thesis by (intro conjI)
qed

text \<open>
  The statement in the week of 1 January 2024, the clock at 12:53:20 on Tuesday: the Monday
  bucket holds 1799.999 s of \<open>entryMidnight\<close>, nothing of the break and 86399.999 s of the
  running \<open>entryLong\<close>; \<open>entryOld\<close> lies before the week and adds nothing.
\<close>

theorem clipped_contribution_witness:
  "list_all (\<lambda>e. endTime e \<noteq> Some 0) [entryMidnight, entryBreak, entryLong] \<and>
   dayWorkSeconds 1704200000000
       (filteredEntries 1704200000000 weekRange [entryMidnight, entryBreak, entryLong]) monday
     = 1799999 / 1000 + 0 + 86399999 / 1000 \<and>
   accTotal (pieAccumulate 1704200000000 weekRange
       (filteredEntries 1704200000000 weekRange [entryMidnight, entryBreak, entryLong]))
     = 3600 + 0 + 132800 \<and>
   dayWorkSeconds 1704200000000 (filteredEntries 1704200000000 weekRange [entryOld]) monday = 0 \<and>
   accTotal (pieAccumulate 1704200000000 weekRange
       (filteredEntries 1704200000000 weekRange [entryOld])) = 0 \<and>
   dayWorkSeconds 1704200000000 (filteredEntries 1704200000000 weekRange [entryLong]) monday
     = 86399999 / 1000"
proof -
  have h: "\<forall>e \<in> set [entryMidnight, entryBreak, entryLong]. endTime e \<noteq> Some 0"
    by (simp add: entryMidnight_def entryBreak_def entryLong_def)
  have h': "list_all (\<lambda>e. endTime e \<noteq> Some 0) [entryMidnight, entryBreak, entryLong]"
    by (simp add: entryMidnight_def entryBreak_def entryLong_def)
  have hOld: "\<forall>e \<in> set [entryOld]. endTime e \<noteq> Some 0"
    by (simp add: entryOld_def)
  have hLong: "\<forall>e \<in> set [entryLong]. endTime e \<noteq> Some 0"
    by (simp add: entryLong_def)
  note defs = entryMidnight_def entryBreak_def entryLong_def entryOld_def weekRange_def monday_def
    reported_def clipped_def effective_end_def startOfDay_def endOfDay_def msPerDay_def
  from clipped_contribution [OF h, of 1704200000000 weekRange monday]
  have a: "dayWorkSeconds 1704200000000
       (filteredEntries 1704200000000 weekRange [entryMidnight, entryBreak, entryLong]) monday
     = 1799999 / 1000 + 0 + 86399999 / 1000"
    "accTotal (pieAccumulate 1704200000000 weekRange
       (filteredEntries 1704200000000 weekRange [entryMidnight, entryBreak, entryLong]))
     = 3600 + 0 + 132800"
    by (simp_all add: defs)
  from clipped_contribution [OF hOld, of 1704200000000 weekRange monday]
  have b: "dayWorkSeconds 1704200000000 (filteredEntries 1704200000000 weekRange [entryOld]) monday = 0"
    "accTotal (pieAccumulate 1704200000000 weekRange
       (filteredEntries 1704200000000 weekRange [entryOld])) = 0"
    by (simp_all add: defs)
  from clipped_contribution [OF hLong, of 1704200000000 weekRange monday entryLong]
  have c: "dayWorkSeconds 1704200000000 (filteredEntries 1704200000000 weekRange [entryLong]) monday
     = 86399999 / 1000"
    by (simp add: defs)
  from h' a b c show ?thesis by (intro conjI)
qed

text \<open>
  The claim as it was stated fails for an open entry once the clock has left the report
  range. The range is the Monday, computed when the page was opened at 12:00; the clock now
  reads 00:00:05 on Tuesday. \<open>entryLong\<close> started before the window and is still open, so the
  formula gives the whole window, 86399.999 s; the filter drops the entry and the Monday
  bucket holds 0.
\<close>

theorem clipped_contribution_counterexample:
  "dayWorkSeconds 1704153605000
      (filteredEntries 1704153605000 (range_day 1704110400000) [entryLong]) monday
   \<noteq> of_int (clipped 1704153605000 entryLong (startOfDay monday) (endOfDay monday)) / 1000"
  by (simp add: dayWorkSeconds_exact filteredEntries_def inReport_def falsyNum_def
      isWithinInterval_def range_day_def entryLong_def monday_def clipped_def effective_end_def
      startOfDay_def endOfDay_def msPerDay_def orNow_def Let_def)




text \<open>
  Claim C4, as amended. Let every entry have an \<open>endTime\<close> other than 0. The total
  \<open>active\<close> is the sum over the entries that started today and are work entries or break
  entries flagged \<open>isWorkingBreak\<close>; the total \<open>rest\<close> is the sum over the entries that started
  today and are break entries not so flagged. Each entry adds the whole seconds from its
  \<open>startTime\<close> to its effective end (its \<open>endTime\<close>, or \<open>now\<close> while it is open), truncated
  toward zero. Nothing is clipped to the bounds of the day, and an entry that started on
  another day adds nothing.
\<close>

theorem live_totals:
  assumes nz: "\<forall>e \<in> set es. endTime e \<noteq> Some 0"
  shows "calculateTotalSeconds now (todayEntries clock es) Active =
           (\<Sum>e\<leftarrow>es. if isToday clock (startTime e) \<and>
                         (type_E e = Work \<or> type_E e = Break \<and> isWorkingBreak e = Some True)
                      then differenceInSeconds (effective_end now e) (startTime e) else 0) \<and>
         calculateTotalSeconds now (todayEntries clock es) Rest =
           (\<Sum>e\<leftarrow>es. if isToday clock (startTime e) \<and>
                         type_E e = Break \<and> isWorkingBreak e \<noteq> Some True
                      then differenceInSeconds (effective_end now e) (startTime e) else 0)"
proof -
  have eff: "orNow (endTime e) now = effective_end now e" if "e \<in> set es" for e
    using nz that by (simp add: orNow_effective)
  have "calculateTotalSeconds now (todayEntries clock es) Active =
           (\<Sum>e\<leftarrow>es. if isToday clock (startTime e) then
               (if type_E e = Work \<or> (type_E e = Break \<and> truthyBool (isWorkingBreak e))
                then differenceInSeconds (orNow (endTime e) now) (startTime e) else 0) else 0)"
    by (simp add: calculateTotalSeconds_sum todayEntries_def sum_list_map_filter')
  also have "\<dots> = (\<Sum>e\<leftarrow>es. if isToday clock (startTime e) \<and>
                         (type_E e = Work \<or> type_E e = Break \<and> isWorkingBreak e = Some True)
                      then differenceInSeconds (effective_end now e) (startTime e) else 0)"
    by (rule sum_list_cong) (auto simp: eff truthyBool_def)
  finally have active: "calculateTotalSeconds now (todayEntries clock es) Active =
           (\<Sum>e\<leftarrow>es. if isToday clock (startTime e) \<and>
                         (type_E e = Work \<or> type_E e = Break \<and> isWorkingBreak e = Some True)
                      then differenceInSeconds (effective_end now e) (startTime e) else 0)" .
  have "calculateTotalSeconds now (todayEntries clock es) Rest =
           (\<Sum>e\<leftarrow>es. if isToday clock (startTime e) then
               (if type_E e = Break \<and> \<not> truthyBool (isWorkingBreak e)
                then differenceInSeconds (orNow (endTime e) now) (startTime e) else 0) else 0)"
    by (simp add: calculateTotalSeconds_sum todayEntries_def sum_list_map_filter')
  also have "\<dots> = (\<Sum>e\<leftarrow>es. if isToday clock (startTime e) \<and>
                         type_E e = Break \<and> isWorkingBreak e \<noteq> Some True
                      then differenceInSeconds (effective_end now e) (startTime e) else 0)"
    by (rule sum_list_cong) (auto simp: eff truthyBool_def)
  finally have rest: "calculateTotalSeconds now (todayEntries clock es) Rest =
           (\<Sum>e\<leftarrow>es. if isToday clock (startTime e) \<and>
                         type_E e = Break \<and> isWorkingBreak e \<noteq> Some True
                      then differenceInSeconds (effective_end now e) (startTime e) else 0)" .
  from active rest show ?thesis by (intro conjI)
qed


text \<open>
  The statement on Monday 1 January 2024 at 16:30:00.500: two hours of work, ten minutes of
  working break and thirty running minutes are active, the thirty minutes of break are rest,
  and Saturday's entry is not counted.
\<close>

theorem live_totals_witness:
  "list_all (\<lambda>e. endTime e \<noteq> Some 0)
     [entryOld, entryWork, entryBreak, entryWorkingBreak, entryRunning] \<and>
   calculateTotalSeconds 1704126600500
     (todayEntries 1704126600500 [entryOld, entryWork, entryBreak, entryWorkingBreak, entryRunning])
     Active = 7200 + 600 + 1800 \<and>
   calculateTotalSeconds 1704126600500
     (todayEntries 1704126600500 [entryOld, entryWork, entryBreak, entryWorkingBreak, entryRunning])
     Rest = 1800"
proof -
  note defs = entryOld_def entryWork_def entryBreak_def entryWorkingBreak_def entryRunning_def
  have h: "\<forall>e \<in> set [entryOld, entryWork, entryBreak, entryWorkingBreak, entryRunning].
      endTime e \<noteq> Some 0"
    by (simp add: defs)
  have h': "list_all (\<lambda>e. endTime e \<noteq> Some 0)
     [entryOld, entryWork, entryBreak, entryWorkingBreak, entryRunning]"
    by (simp add: defs)
  from live_totals [OF h, of 1704126600500 1704126600500]
  have "calculateTotalSeconds 1704126600500
     (todayEntries 1704126600500 [entryOld, entryWork, entryBreak, entryWorkingBreak, entryRunning])
     Active = 7200 + 600 + 1800"
    "calculateTotalSeconds 1704126600500
     (todayEntries 1704126600500 [entryOld, entryWork, entryBreak, entryWorkingBreak, entryRunning])
     Rest = 1800"
    by (simp_all add: defs isToday_def startOfDay_def msPerDay_def differenceInSeconds_def
        effective_end_def Let_def)
  with h' show ?thesis by (intro conjI)
qed

text \<open>
  The claim as it was stated fails where clipping would matter. On Tuesday at 12:53:20,
  \<open>entryMidnight\<close> has 1800 s inside the bounds of the day, from 00:00 to 00:30; it started
  on Monday, so the dashboard counts nothing of it.
\<close>

theorem live_totals_counterexample:
  "calculateTotalSeconds 1704200000000 (todayEntries 1704200000000 [entryMidnight]) Active
   \<noteq> clipped 1704200000000 entryMidnight (startOfDay 1704200000000) (endOfDay 1704200000000)
       div 1000"
  by (simp add: calculateTotalSeconds_def todayEntries_def isToday_def entryMidnight_def
      clipped_def effective_end_def startOfDay_def endOfDay_def msPerDay_def)

text \<open>
  Claim C5, as amended. Let every entry have an \<open>endTime\<close> other than 0. \<open>pieData\<close> sums
  clipped durations of the work entries that the report's filter keeps, keyed by
  \<open>projectId\<close>: the map holds exactly one pair for every non-empty project id that some such
  entry carries, and its value is the sum, in the order of the entries and in double
  arithmetic, of their clipped durations in seconds. The kept work entries with no project id
  (or the empty one) add up in the same way in \<open>noProjectSeconds\<close>. The result has one row per
  pair of the map, with the hours rounded to two decimals, and after them the row
  \<open>No Project\<close> exactly when \<open>noProjectSeconds\<close> exceeds 60. Three closed work entries of one
  hour, two hours and thirty minutes for a project \<open>P\<close>, all inside the range, give the
  single row of \<open>P\<close> with the value 3.5.
\<close>

theorem per_project_totals:
  assumes nz: "\<forall>e \<in> set es. endTime e \<noteq> Some 0"
  shows
  "distinct (map fst (fst (pieAccumulateBy toDouble now r (filteredEntries now r es)))) \<and>
   (\<forall>pid tot.
      (pid, tot) \<in> set (fst (pieAccumulateBy toDouble now r (filteredEntries now r es))) \<longleftrightarrow>
      pid \<noteq> [] \<and> (\<exists>e \<in> set es. reported now r e \<and> projectId e = Some pid) \<and>
      tot = foldl (\<lambda>a e. toDouble (a + clippedSeconds now e (start_R r) (end_R r))) 0
              (filter (\<lambda>e. reported now r e \<and> projectId e = Some pid) es)) \<and>
   snd (pieAccumulateBy toDouble now r (filteredEntries now r es)) =
     foldl (\<lambda>a e. toDouble (a + clippedSeconds now e (start_R r) (end_R r))) 0
       (filter (\<lambda>e. reported now r e \<and> (projectId e = None \<or> projectId e = Some [])) es) \<and>
   pieData now r ps (filteredEntries now r es) =
     map (projectRow ps) (fst (pieAccumulateBy toDouble now r (filteredEntries now r es))) @
     (if 60 < snd (pieAccumulateBy toDouble now r (filteredEntries now r es))
      then [\<lparr>name_Row = ''No Project'',
              value_Row = numberFixed2
                (toDouble (snd (pieAccumulateBy toDouble now r (filteredEntries now r es)) / 3600)),
              color_Row = ''#ccc''\<rparr>]
      else []) \<and>
   (P \<noteq> [] \<and>
    list_all (\<lambda>e. type_E e = Work \<and> projectId e = Some P) [e1, e2, e3] \<and>
    endTime e1 = Some (startTime e1 + 3600000) \<and>
    endTime e2 = Some (startTime e2 + 7200000) \<and>
    endTime e3 = Some (startTime e3 + 1800000) \<and>
    list_all (\<lambda>e. start_R r \<le> startTime e \<and> effective_end now e \<le> end_R r \<and>
        endTime e \<noteq> Some 0) [e1, e2, e3] \<longrightarrow>
    pieData now r ps (filteredEntries now r [e1, e2, e3]) = [projectRow ps (P, 12600)] \<and>
    value_Row (projectRow ps (P, 12600)) = 7 / 2)"
proof -
  let ?fes = "filteredEntries now r es"
  let ?acc = "pieAccumulateBy toDouble now r ?fes"
  let ?sum = "foldl (\<lambda>a e. toDouble (a + clippedSeconds now e (start_R r) (end_R r))) 0"
  have keyed: "foldl (\<lambda>a e. toDouble (a + secondsBy toDouble now r e)) 0
        (filter Q (filter (\<lambda>e. type_E e = Work) ?fes))
      = ?sum (filter (\<lambda>e. reported now r e \<and> Q e) es)" for Q
    unfolding reported_filter [OF nz] by (rule foldl_clippedSeconds [OF nz])
  have ex: "(\<exists>e \<in> set (filter (\<lambda>e. type_E e = Work) ?fes). projectId e = Some pid) \<longleftrightarrow>
      (\<exists>e \<in> set es. reported now r e \<and> projectId e = Some pid)" for pid
  proof -
    have "(\<exists>e \<in> set (filter (\<lambda>e. type_E e = Work) ?fes). projectId e = Some pid) \<longleftrightarrow>
        filter (\<lambda>e. projectId e = Some pid) (filter (\<lambda>e. type_E e = Work) ?fes) \<noteq> []"
      by (auto simp: filter_empty_conv)
    also have "\<dots> \<longleftrightarrow> filter (\<lambda>e. reported now r e \<and> projectId e = Some pid) es \<noteq> []"
      unfolding reported_filter [OF nz] ..
    also have "\<dots> \<longleftrightarrow> (\<exists>e \<in> set es. reported now r e \<and> projectId e = Some pid)"
      by (auto simp: filter_empty_conv)
    finally show ?thesis .
  qed
  have c1: "distinct (map fst (fst ?acc))"
    by (rule pieAccumulateBy_distinct)
  have c2: "\<forall>pid tot. (pid, tot) \<in> set (fst ?acc) \<longleftrightarrow>
      pid \<noteq> [] \<and> (\<exists>e \<in> set es. reported now r e \<and> projectId e = Some pid) \<and>
      tot = ?sum (filter (\<lambda>e. reported now r e \<and> projectId e = Some pid) es)"
    unfolding pieAccumulateBy_mem keyed ex by simp
  have c3: "snd ?acc =
      ?sum (filter (\<lambda>e. reported now r e \<and> (projectId e = None \<or> projectId e = Some [])) es)"
    unfolding pieAccumulateBy_snd keyed ..
  have c4: "pieData now r ps ?fes =
     map (projectRow ps) (fst ?acc) @
     (if 60 < snd ?acc
      then [\<lparr>name_Row = ''No Project'',
              value_Row = numberFixed2 (toDouble (snd ?acc / 3600)),
              color_Row = ''#ccc''\<rparr>]
      else [])"
    by (rule pieData_rows)
  have c5: "P \<noteq> [] \<and>
    list_all (\<lambda>e. type_E e = Work \<and> projectId e = Some P) [e1, e2, e3] \<and>
    endTime e1 = Some (startTime e1 + 3600000) \<and>
    endTime e2 = Some (startTime e2 + 7200000) \<and>
    endTime e3 = Some (startTime e3 + 1800000) \<and>
    list_all (\<lambda>e. start_R r \<le> startTime e \<and> effective_end now e \<le> end_R r \<and>
        endTime e \<noteq> Some 0) [e1, e2, e3] \<longrightarrow>
    pieData now r ps (filteredEntries now r [e1, e2, e3]) = [projectRow ps (P, 12600)] \<and>
    value_Row (projectRow ps (P, 12600)) = 7 / 2"
  proof (intro impI conjI)
    assume a: "P \<noteq> [] \<and>
      list_all (\<lambda>e. type_E e = Work \<and> projectId e = Some P) [e1, e2, e3] \<and>
      endTime e1 = Some (startTime e1 + 3600000) \<and>
      endTime e2 = Some (startTime e2 + 7200000) \<and>
      endTime e3 = Some (startTime e3 + 1800000) \<and>
      list_all (\<lambda>e. start_R r \<le> startTime e \<and> effective_end now e \<le> end_R r \<and>
          endTime e \<noteq> Some 0) [e1, e2, e3]"
    then show "pieData now r ps (filteredEntries now r [e1, e2, e3]) = [projectRow ps (P, 12600)]"
      by (intro three_entries) (elim conjE, assumption)+
    show "value_Row (projectRow ps (P, 12600)) = 7 / 2"
      by (simp add: projectRow_def Let_def hours_values)
  qed
  from c1 c2 c3 c4 c5 show ?thesis by (intro conjI)
qed


text \<open>
  The statement in the week of 1 January 2024: the three entries of project \<open>p1\<close> give the row
  \<open>Alpha\<close> with 3.5 hours, alone and together with a break and with thirty seconds of work
  that has no project, which stay below the threshold and give no row. Three entries with no
  project of 7.923, 48.703 and 3.374 seconds add up to a double above 60 and give the row
  \<open>No Project\<close>.
\<close>

theorem per_project_totals_witness:
  "list_all (\<lambda>e. endTime e \<noteq> Some 0) [entryP1a, entryShort, entryP1b, entryBreak, entryP1c] \<and>
   (''p1'', 12600) \<in> set (fst (pieAccumulateBy toDouble 1704200000000 weekRange
      (filteredEntries 1704200000000 weekRange [entryP1a, entryShort, entryP1b, entryBreak, entryP1c]))) \<and>
   snd (pieAccumulateBy toDouble 1704200000000 weekRange
      (filteredEntries 1704200000000 weekRange [entryP1a, entryShort, entryP1b, entryBreak, entryP1c]))
     = 30 \<and>
   pieData 1704200000000 weekRange [projectAlpha, projectBeta]
      (filteredEntries 1704200000000 weekRange [entryP1a, entryShort, entryP1b, entryBreak, entryP1c])
     = [\<lparr>name_Row = ''Alpha'', value_Row = 7 / 2, color_Row = ''#3b82f6''\<rparr>] \<and>
   pieData 1704200000000 weekRange [projectAlpha, projectBeta]
      (filteredEntries 1704200000000 weekRange [entryP1a, entryP1b, entryP1c])
     = [\<lparr>name_Row = ''Alpha'', value_Row = 7 / 2, color_Row = ''#3b82f6''\<rparr>] \<and>
   map name_Row (pieData 1704200000000 weekRange [projectAlpha, projectBeta]
      (filteredEntries 1704200000000 weekRange [entryN1, entryN2, entryN3])) = [''No Project'']"
proof -
  let ?es = "[entryP1a, entryShort, entryP1b, entryBreak, entryP1c]"
  let ?acc = "pieAccumulateBy toDouble 1704200000000 weekRange
      (filteredEntries 1704200000000 weekRange ?es)"
  let ?sum = "foldl (\<lambda>a e. toDouble
      (a + clippedSeconds 1704200000000 e (start_R weekRange) (end_R weekRange))) 0"
  have h: "\<forall>e \<in> set ?es. endTime e \<noteq> Some 0"
    by (simp add: entryP1a_def entryP1b_def entryP1c_def entryShort_def entryBreak_def)
  have h': "list_all (\<lambda>e. endTime e \<noteq> Some 0) ?es"
    by (simp add: entryP1a_def entryP1b_def entryP1c_def entryShort_def entryBreak_def)
  note inst = per_project_totals [OF h, of 1704200000000 weekRange "[projectAlpha, projectBeta]"
      "''p1''" entryP1a entryP1b entryP1c]
  from inst have mem: "(''p1'', 12600) \<in> set (fst ?acc) \<longleftrightarrow>
      ''p1'' \<noteq> [] \<and>
      (\<exists>e \<in> set ?es. reported 1704200000000 weekRange e \<and> projectId e = Some ''p1'') \<and>
      12600 = ?sum (filter (\<lambda>e. reported 1704200000000 weekRange e \<and> projectId e = Some ''p1'') ?es)"
    by blast
  have "''p1'' \<noteq> [] \<and>
      (\<exists>e \<in> set ?es. reported 1704200000000 weekRange e \<and> projectId e = Some ''p1'') \<and>
      12600 = ?sum (filter (\<lambda>e. reported 1704200000000 weekRange e \<and> projectId e = Some ''p1'') ?es)"
    by code_simp
  with mem have c1: "(''p1'', 12600) \<in> set (fst ?acc)" by (rule iffD2)
  from inst have "snd ?acc =
      ?sum (filter (\<lambda>e. reported 1704200000000 weekRange e \<and>
                       (projectId e = None \<or> projectId e = Some [])) ?es)"
    by blast
  also have "\<dots> = 30" by code_simp
  finally have c2: "snd ?acc = 30" .
  have hyp: "''p1'' \<noteq> [] \<and>
    list_all (\<lambda>e. type_E e = Work \<and> projectId e = Some ''p1'') [entryP1a, entryP1b, entryP1c] \<and>
    endTime entryP1a = Some (startTime entryP1a + 3600000) \<and>
    endTime entryP1b = Some (startTime entryP1b + 7200000) \<and>
    endTime entryP1c = Some (startTime entryP1c + 1800000) \<and>
    list_all (\<lambda>e. start_R weekRange \<le> startTime e \<and> effective_end 1704200000000 e \<le> end_R weekRange \<and>
        endTime e \<noteq> Some 0) [entryP1a, entryP1b, entryP1c]"
    by (simp add: entryP1a_def entryP1b_def entryP1c_def weekRange_def effective_end_def)
  from inst hyp have "pieData 1704200000000 weekRange [projectAlpha, projectBeta]
      (filteredEntries 1704200000000 weekRange [entryP1a, entryP1b, entryP1c])
     = [projectRow [projectAlpha, projectBeta] (''p1'', 12600)]"
    by blast
  then have c4: "pieData 1704200000000 weekRange [projectAlpha, projectBeta]
      (filteredEntries 1704200000000 weekRange [entryP1a, entryP1b, entryP1c])
     = [\<lparr>name_Row = ''Alpha'', value_Row = 7 / 2, color_Row = ''#3b82f6''\<rparr>]"
    by (simp add: projectRow_def projectAlpha_def hours_values)
  from h' c1 c2 week_rows c4 noise_rows(1) show ?thesis by (intro conjI)
qed

text \<open>
  The claim as it was stated fails for a work entry that the filter drops. The range is
  Monday, the clock reads 00:00:05 on Tuesday, and the running \<open>entryLongP\<close> of project \<open>p1\<close>
  has a clipped duration of 86399.999 s in the range; the report has no row for the project.
\<close>

theorem per_project_totals_counterexample:
  "type_E entryLongP = Work \<and> projectId entryLongP = Some ''p1'' \<and>
   clipped 1704153605000 entryLongP (start_R (range_day 1704110400000))
     (end_R (range_day 1704110400000)) = 86399999 \<and>
   pieData 1704153605000 (range_day 1704110400000) [projectAlpha, projectBeta]
     (filteredEntries 1704153605000 (range_day 1704110400000) [entryLongP]) = []"
  by (simp add: pieData_def pieAccumulateBy_def filteredEntries_def inReport_def falsyNum_def
      isWithinInterval_def range_day_def entryLongP_def entryLong_def clipped_def
      effective_end_def startOfDay_def endOfDay_def msPerDay_def)

text \<open>
  Claim C9. \<open>deleteProject\<close> removes the project and leaves the entries as they are, with their
  \<open>projectId\<close>. In the report computed afterwards the lookup of that id finds no project; the
  optional chaining of the source turns this into the row named \<open>Unknown\<close> with the colour
  \<open>#999\<close>, no error is raised, and the row carries the hours of all counted work entries that
  still refer to the deleted project.
\<close>

theorem deleteProject_report:
  assumes e: "e \<in> set (entries s)" "type_E e = Work" "inReport now r e"
    and pid: "projectId e = Some pid" "pid \<noteq> []"
  shows "entries (deleteProject pid s) = entries s \<and>
         find (\<lambda>p. id_P p = pid) (projects (deleteProject pid s)) = None \<and>
         \<lparr>name_Row = ''Unknown'',
           value_Row = numberFixed2 (toDouble
             (foldl (\<lambda>a e. toDouble (a + secondsBy toDouble now r e)) 0
                (filter (\<lambda>e. projectId e = Some pid)
                   (filter (\<lambda>e. type_E e = Work) (filteredEntries now r (entries s)))) / 3600)),
           color_Row = ''#999''\<rparr>
           \<in> set (pieData now r (projects (deleteProject pid s))
                  (filteredEntries now r (entries (deleteProject pid s))))"
proof -
  let ?fes = "filteredEntries now r (entries s)"
  let ?tot = "foldl (\<lambda>a e. toDouble (a + secondsBy toDouble now r e)) 0
                (filter (\<lambda>e. projectId e = Some pid) (filter (\<lambda>e. type_E e = Work) ?fes))"
  let ?ps = "projects (deleteProject pid s)"
  have kept: "entries (deleteProject pid s) = entries s"
    by (simp add: deleteProject_def)
  have gone: "find (\<lambda>p. id_P p = pid) ?ps = None"
    by (rule find_deleted)
  from e pid(1) have "\<exists>x \<in> set (filter (\<lambda>e. type_E e = Work) ?fes). projectId x = Some pid"
    by (auto simp: filteredEntries_def)
  with pid(2) have "(pid, ?tot) \<in> set (fst (pieAccumulateBy toDouble now r ?fes))"
    by (simp add: pieAccumulateBy_mem)
  then have "projectRow ?ps (pid, ?tot) \<in> set (pieData now r ?ps ?fes)"
    by (simp add: pieData_rows)
  moreover have "projectRow ?ps (pid, ?tot) =
      \<lparr>name_Row = ''Unknown'', value_Row = numberFixed2 (toDouble (?tot / 3600)),
        color_Row = ''#999''\<rparr>"
    by (simp add: projectRow_def gone)
  ultimately have "\<lparr>name_Row = ''Unknown'', value_Row = numberFixed2 (toDouble (?tot / 3600)),
        color_Row = ''#999''\<rparr> \<in> set (pieData now r ?ps ?fes)"
    by simp
  with kept gone show ?thesis by simp
qed

text \<open>The statement on \<open>store2\<close> after its project \<open>p1\<close> is deleted.\<close>

theorem deleteProject_report_witness:
  "entryP1a \<in> set (entries store2) \<and> type_E entryP1a = Work \<and>
   inReport 1704200000000 weekRange entryP1a \<and> projectId entryP1a = Some ''p1'' \<and>
   entries (deleteProject ''p1'' store2) = entries store2 \<and>
   projects (deleteProject ''p1'' store2) = [projectBeta] \<and>
   \<lparr>name_Row = ''Unknown'', value_Row = 7 / 2, color_Row = ''#999''\<rparr>
     \<in> set (pieData 1704200000000 weekRange (projects (deleteProject ''p1'' store2))
            (filteredEntries 1704200000000 weekRange (entries (deleteProject ''p1'' store2))))"
proof -
  have h: "entryP1a \<in> set (entries store2)" "type_E entryP1a = Work"
    "inReport 1704200000000 weekRange entryP1a" "projectId entryP1a = Some ''p1''" "''p1'' \<noteq> []"
    by (simp_all add: store2_def inReport_def falsyNum_def orNow_def Let_def entryP1a_def
        weekRange_def)
  have ps: "projects (deleteProject ''p1'' store2) = [projectBeta]"
    by (simp add: deleteProject_def store2_def projectAlpha_def projectBeta_def)
  have tot: "numberFixed2 (toDouble
      (foldl (\<lambda>a e. toDouble (a + secondsBy toDouble 1704200000000 weekRange e)) 0
        (filter (\<lambda>e. projectId e = Some ''p1'')
           (filter (\<lambda>e. type_E e = Work)
              (filteredEntries 1704200000000 weekRange (entries store2)))) / 3600)) = 7 / 2"
    by code_simp
  note inst = deleteProject_report [OF h, unfolded tot]
  from inst have kept: "entries (deleteProject ''p1'' store2) = entries store2"
    by (rule conjunct1)
  from inst have row: "\<lparr>name_Row = ''Unknown'', value_Row = 7 / 2, color_Row = ''#999''\<rparr>
     \<in> set (pieData 1704200000000 weekRange (projects (deleteProject ''p1'' store2))
            (filteredEntries 1704200000000 weekRange (entries (deleteProject ''p1'' store2))))"
    by (elim conjE)
  from h(1-4) kept ps row show ?thesis by (intro conjI)
qed

end
